theory Spec2Isabelle
  imports Main "HOL-Library.Word"
begin

section \<open>Levels and defaults\<close>

text \<open>
  The definitions keep the names of the source. Where two structs of the source have a
  field of the same name, the fields are told apart by a prefix: \<open>c_\<close> for
  \<^verbatim>\<open>consoleLogger\<close>, \<open>f_\<close> for \<^verbatim>\<open>fileLogger\<close>, \<open>m_\<close> for \<^verbatim>\<open>logMsg\<close>; the methods of the
  two loggers carry the same prefixes, and those of \<^verbatim>\<open>Log\<close> the prefix \<open>Log_\<close>.

  \<^verbatim>\<open>type Level uint16\<close> with the constants \<^verbatim>\<open>UNKNOWN .. FATAL\<close> numbered by
  \<^verbatim>\<open>iota\<close>. The split mode is an \<^verbatim>\<open>int16\<close> that the code only ever compares for
  equality, so a 16-bit word models it too.
\<close>

type_synonym Level = "16 word"

definition UNKNOWN :: Level where "UNKNOWN = 0"
definition DEBUG :: Level where "DEBUG = 1"
definition INFO :: Level where "INFO = 2"
definition WARN :: Level where "WARN = 3"
definition ERROR :: Level where "ERROR = 4"
definition FATAL :: Level where "FATAL = 5"

definition SplitNone :: "16 word" where "SplitNone = 0"
definition SplitBaseOnSize :: "16 word" where "SplitBaseOnSize = 1"
definition SplitBaseOnTime :: "16 word" where "SplitBaseOnTime = 2"

text \<open>
  Instants and durations. A \<^verbatim>\<open>time.Duration\<close> is an \<^verbatim>\<open>int64\<close> count of nanoseconds; an
  instant (\<^verbatim>\<open>time.Time\<close>) is modelled as the unbounded count of nanoseconds since the
  Unix epoch. \<^verbatim>\<open>UnixNano\<close> reads an instant back as an \<^verbatim>\<open>int64\<close> (wrapping outside the
  representable years), \<^verbatim>\<open>Sub\<close> saturates at the ends of the \<^verbatim>\<open>int64\<close> range, and Go's
  \<^verbatim>\<open>/\<close> and \<^verbatim>\<open>%\<close> truncate towards zero.
\<close>

type_synonym Time = int
type_synonym Duration = int

definition Nanosecond :: Duration where "Nanosecond = 1"
definition Millisecond :: Duration where "Millisecond = 1000000"
definition Second :: Duration where "Second = 1000000000"
definition Minute :: Duration where "Minute = 60000000000"
definition Hour :: Duration where "Hour = 3600000000000"

definition minDuration :: Duration where "minDuration = - (2 ^ 63)"
definition maxDuration :: Duration where "maxDuration = 2 ^ 63 - 1"

definition wrap64 :: "int \<Rightarrow> int" where
  "wrap64 x = (x + 2 ^ 63) mod 2 ^ 64 - 2 ^ 63"

definition go_div :: "int \<Rightarrow> int \<Rightarrow> int" where
  "go_div a b = sgn a * sgn b * (\<bar>a\<bar> div \<bar>b\<bar>)"

definition go_rem :: "int \<Rightarrow> int \<Rightarrow> int" where
  "go_rem a b = sgn a * (\<bar>a\<bar> mod \<bar>b\<bar>)"

definition UnixNano :: "Time \<Rightarrow> int" where
  "UnixNano t = wrap64 t"

definition Time_Add :: "Time \<Rightarrow> Duration \<Rightarrow> Time" where
  "Time_Add t d = t + d"

definition Time_Sub :: "Time \<Rightarrow> Time \<Rightarrow> Duration" where
  "Time_Sub t u =
     (if t - u < minDuration then minDuration
      else if maxDuration < t - u then maxDuration
      else t - u)"

text \<open>The zero \<^verbatim>\<open>time.Time\<close> (January 1, year 1, 00:00:00 UTC), which a failed parse returns.\<close>

definition zeroTime :: Time where
  "zeroTime = - 62135596800 * 1000000000"

definition defaultLevel :: Level where "defaultLevel = DEBUG"
definition defaultTimeFormat :: string where "defaultTimeFormat = ''2006-01-02 15:04:05''"
definition defaultFilePath :: string where "defaultFilePath = ''./log/''"
definition defaultFileName :: string where "defaultFileName = ''ALog.log''"
definition defaultMaxFileSize :: int where "defaultMaxFileSize = 2 ^ 23"
definition defaultMaxChanSize :: nat where "defaultMaxChanSize = 50000"
definition defaultDuration :: Duration where "defaultDuration = Hour * 24"

section \<open>Strings: decimal numbers, level names, paths\<close>

definition digit_char :: "nat \<Rightarrow> char" where
  "digit_char n = ''0123456789'' ! (n mod 10)"

fun natToDec :: "nat \<Rightarrow> string" where
  "natToDec n = (if n < 10 then [digit_char n] else natToDec (n div 10) @ [digit_char n])"

declare natToDec.simps [simp del]

text \<open>The verb \<^verbatim>\<open>%d\<close> of \<^verbatim>\<open>fmt\<close> on an \<^verbatim>\<open>int\<close>.\<close>

definition itoa :: "int \<Rightarrow> string" where
  "itoa i = (if i < 0 then CHR ''-'' # natToDec (nat (- i)) else natToDec (nat i))"

text \<open>
  The error values and panic messages of the source are Chinese text; the model keeps an
  ASCII rendering of each.
\<close>

definition err_invalid_level :: string where
  "err_invalid_level = ''invalid log level''"



definition l2S :: "Level \<Rightarrow> string" where
  "l2S lv =
     (if lv = DEBUG then ''DEBUG''
      else if lv = INFO then ''INFO''
      else if lv = WARN then ''WARN''
      else if lv = ERROR then ''ERROR''
      else if lv = FATAL then ''FATAL''
      else ''UNKNOWN'')"

text \<open>
  \<^verbatim>\<open>path.Join\<close> of the Go library: the non-empty elements joined by a slash, then
  \<^verbatim>\<open>path.Clean\<close>: empty and \<^verbatim>\<open>.\<close> elements dropped, \<^verbatim>\<open>..\<close> cancelling the element before
  it (dropped at the root, kept at the start of a relative path), and \<^verbatim>\<open>.\<close> for an empty
  result.
\<close>

fun splitOn :: "char \<Rightarrow> string \<Rightarrow> string list" where
  "splitOn c [] = [[]]"
| "splitOn c (x # xs) =
     (if x = c then [] # splitOn c xs
      else (case splitOn c xs of
              [] \<Rightarrow> [[x]]
            | y # ys \<Rightarrow> (x # y) # ys))"

fun joinWith :: "string \<Rightarrow> string list \<Rightarrow> string" where
  "joinWith sep [] = []"
| "joinWith sep [x] = x"
| "joinWith sep (x # y # ys) = x @ sep @ joinWith sep (y # ys)"

fun cleanElems :: "bool \<Rightarrow> string list \<Rightarrow> string list \<Rightarrow> string list" where
  "cleanElems rooted out [] = rev out"
| "cleanElems rooted out (e # es) =
     (if e = [] \<or> e = ''.'' then cleanElems rooted out es
      else if e = ''..'' then
        (case out of
           [] \<Rightarrow> if rooted then cleanElems rooted [] es else cleanElems rooted [''..''] es
         | el # below \<Rightarrow>
             if el = ''..'' then cleanElems rooted (''..'' # out) es
             else cleanElems rooted below es)
      else cleanElems rooted (e # out) es)"

definition path_Clean :: "string \<Rightarrow> string" where
  "path_Clean p =
     (case p of
        [] \<Rightarrow> ''.''
      | c # _ \<Rightarrow>
          (let rooted = (c = CHR ''/'');
               s = joinWith ''/'' (cleanElems rooted [] (splitOn (CHR ''/'') p))
           in if rooted then CHR ''/'' # s else if s = [] then ''.'' else s))"

definition path_Join :: "string list \<Rightarrow> string" where
  "path_Join elem =
     (let ne = filter (\<lambda>e. e \<noteq> []) elem
      in if ne = [] then [] else path_Clean (joinWith ''/'' ne))"

section \<open>The operating system and the library, as the program sees them\<close>

text \<open>
  Every call the program makes to the operating system is appended to a trace, and the
  result of each fallible call comes from the world: a function of the calls made so far
  and of the call's argument, so that any behaviour of the file system (including any
  failure at any moment) is one choice of these functions. A file handle
  (\<^verbatim>\<open>*os.File\<close>) is \<open>None\<close> for \<^verbatim>\<open>nil\<close> and \<open>Some h\<close> for an open descriptor; the methods
  of a \<^verbatim>\<open>nil\<close> file fail with \<^verbatim>\<open>os.ErrInvalid\<close>. The results of \<^verbatim>\<open>Close\<close>, \<^verbatim>\<open>Rename\<close> and
  \<^verbatim>\<open>Fprint\<close> are produced by the world as well, and the program discards them where the
  source writes \<^verbatim>\<open>_ =\<close>.

  \<^verbatim>\<open>time.Now\<close>, the layout-driven \<^verbatim>\<open>Format\<close> and \<^verbatim>\<open>ParseInLocation\<close> of package
  \<^verbatim>\<open>time\<close>, and \<^verbatim>\<open>strings.ToLower\<close> (which follows the Unicode case tables) are taken
  from the world too.
\<close>

type_synonym File = "nat option"

datatype event =
    MkdirAll string
  | OpenFile string nat
  | Stat File
  | CloseFile File
  | Rename string string
  | Fprint File string
  | Printf string
  | Sleep Duration
  | GoWriteLogBackground File

record world =
  trace :: "event list"
  now :: Time
  os_error :: "event list \<Rightarrow> event \<Rightarrow> string option"
  os_open :: "event list \<Rightarrow> string \<Rightarrow> string + nat"
  os_stat :: "event list \<Rightarrow> nat \<Rightarrow> string + (string \<times> int)"
  time_Format :: "string \<Rightarrow> Time \<Rightarrow> string"
  time_Parse :: "string \<Rightarrow> string \<Rightarrow> Time option"
  strings_ToLower :: "string \<Rightarrow> string"

datatype abort = Panic string | Exit int

datatype 'a outcome = Done 'a world | Aborted abort world

text \<open>The permission bits \<^verbatim>\<open>0644\<close> and \<^verbatim>\<open>0777\<close> (octal).\<close>

definition perm_0644 :: nat where "perm_0644 = 420"

definition ErrInvalid :: string where
  "ErrInvalid = ''invalid argument''"

definition emit :: "event \<Rightarrow> world \<Rightarrow> world" where
  "emit e w = w\<lparr>trace := trace w @ [e]\<rparr>"

text \<open>A call whose only result is an error value (\<open>None\<close> is \<^verbatim>\<open>nil\<close>).\<close>

definition call :: "event \<Rightarrow> world \<Rightarrow> string option \<times> world" where
  "call e w = (os_error w (trace w) e, emit e w)"

definition os_MkdirAll :: "string \<Rightarrow> world \<Rightarrow> string option \<times> world" where
  "os_MkdirAll p w = call (MkdirAll p) w"

definition os_OpenFile :: "string \<Rightarrow> nat \<Rightarrow> world \<Rightarrow> (string + nat) \<times> world" where
  "os_OpenFile name perm w = (os_open w (trace w) name, emit (OpenFile name perm) w)"

definition File_Stat :: "File \<Rightarrow> world \<Rightarrow> (string + (string \<times> int)) \<times> world" where
  "File_Stat file w =
     ((case file of None \<Rightarrow> Inl ErrInvalid | Some h \<Rightarrow> os_stat w (trace w) h),
      emit (Stat file) w)"

definition File_Close :: "File \<Rightarrow> world \<Rightarrow> string option \<times> world" where
  "File_Close file w =
     (case file of
        None \<Rightarrow> (Some ErrInvalid, emit (CloseFile file) w)
      | Some h \<Rightarrow> call (CloseFile file) w)"

definition os_Rename :: "string \<Rightarrow> string \<Rightarrow> world \<Rightarrow> string option \<times> world" where
  "os_Rename old new w = call (Rename old new) w"

definition fmt_Fprint :: "File \<Rightarrow> string \<Rightarrow> world \<Rightarrow> string option \<times> world" where
  "fmt_Fprint file s w =
     (case file of
        None \<Rightarrow> (Some ErrInvalid, emit (Fprint file s) w)
      | Some h \<Rightarrow> call (Fprint file s) w)"

definition fmt_Printf :: "string \<Rightarrow> world \<Rightarrow> world" where
  "fmt_Printf s w = emit (Printf s) w"

definition time_Sleep :: "Duration \<Rightarrow> world \<Rightarrow> world" where
  "time_Sleep d w = emit (Sleep d) w"

section \<open>The console logger\<close>

record consoleLogger =
  c_level :: Level
  c_timeFormat :: string

definition newConsoleLogger :: consoleLogger where
  "newConsoleLogger = \<lparr>c_level = defaultLevel, c_timeFormat = defaultTimeFormat\<rparr>"

definition c_enable :: "consoleLogger \<Rightarrow> Level \<Rightarrow> bool" where
  "c_enable c logeLevel = (c_level c \<le> logeLevel)"

text \<open>
  \<^verbatim>\<open>consoleLogger.log\<close>. The message \<open>msg\<close> is the result of \<^verbatim>\<open>fmt.Sprintf\<close> on the caller's
  format and arguments, and \<open>ti\<close> is the triple (file name, function name, line) that
  \<^verbatim>\<open>traceInfo(4)\<close> returns for the call site. The line printed is
  \<^verbatim>\<open>"[%s] [%s] [%s:%s:%d] %s\n"\<close> on the time, the level, \<^verbatim>\<open>fileName, funcName, lineNo\<close>
  and the message, in this order.
\<close>

type_synonym traceinfo = "string \<times> string \<times> int"

definition c_log :: "consoleLogger \<Rightarrow> Level \<Rightarrow> string \<Rightarrow> traceinfo \<Rightarrow> world \<Rightarrow> world" where
  "c_log c lv msg ti w =
     (if c_enable c lv then
        (case ti of (fileName, funcName, lineNo) \<Rightarrow>
           fmt_Printf (''['' @ time_Format w (c_timeFormat c) (now w) @ ''] ['' @ l2S lv
                       @ ''] ['' @ fileName @ '':'' @ funcName @ '':'' @ itoa lineNo @ ''] ''
                       @ msg @ [CHR 0x0A]) w)
      else w)"

definition c_Debug :: "consoleLogger \<Rightarrow> string \<Rightarrow> traceinfo \<Rightarrow> world \<Rightarrow> world" where
  "c_Debug c msg ti w = c_log c DEBUG msg ti w"
definition c_Info :: "consoleLogger \<Rightarrow> string \<Rightarrow> traceinfo \<Rightarrow> world \<Rightarrow> world" where
  "c_Info c msg ti w = c_log c INFO msg ti w"
definition c_Warn :: "consoleLogger \<Rightarrow> string \<Rightarrow> traceinfo \<Rightarrow> world \<Rightarrow> world" where
  "c_Warn c msg ti w = c_log c WARN msg ti w"
definition c_Error :: "consoleLogger \<Rightarrow> string \<Rightarrow> traceinfo \<Rightarrow> world \<Rightarrow> world" where
  "c_Error c msg ti w = c_log c ERROR msg ti w"
definition c_Fatal :: "consoleLogger \<Rightarrow> string \<Rightarrow> traceinfo \<Rightarrow> world \<Rightarrow> world" where
  "c_Fatal c msg ti w = c_log c FATAL msg ti w"

section \<open>The file logger\<close>

record logMsg =
  m_level :: Level
  m_msg :: string
  m_funcName :: string
  m_fileName :: string
  m_timeStamp :: string
  m_line :: int

text \<open>
  A buffered channel: its queued elements, oldest first, and its capacity. A send inside
  a \<^verbatim>\<open>select\<close> with a \<^verbatim>\<open>default\<close> case succeeds when the buffer has room and is dropped
  otherwise (no receiver is waiting while the worker is not at its \<^verbatim>\<open>select\<close>).
\<close>

record 'a chan =
  buf :: "'a list"
  cap :: nat

definition make_chan :: "nat \<Rightarrow> 'a chan" where
  "make_chan n = \<lparr>buf = [], cap = n\<rparr>"

definition try_send :: "'a chan \<Rightarrow> 'a \<Rightarrow> 'a chan" where
  "try_send ch x = (if length (buf ch) < cap ch then ch\<lparr>buf := buf ch @ [x]\<rparr> else ch)"

text \<open>
  The fields of \<^verbatim>\<open>fileLogger\<close>. \<open>closeChan\<close> is an unbuffered channel: the model keeps
  whether a sender is waiting on it. The worker goroutine and the callers of the logger
  share this struct; the model runs them as separate functions on it (the log methods,
  one iteration of the worker), each of them atomic. \<^verbatim>\<open>Close\<close>, which waits for the
  worker, takes the iterations of the worker it waits for as a parameter.
\<close>

record fileLogger =
  f_level :: Level
  f_timeFormat :: string
  f_filePath :: string
  f_fileName :: string
  logChan :: "logMsg chan"
  closeChan :: bool
  fileObj :: File
  splitMode :: "16 word"
  maxFileSize :: int
  duration :: Duration
  startTime :: Time

definition f_enable :: "fileLogger \<Rightarrow> Level \<Rightarrow> bool" where
  "f_enable f lv = (f_level f \<le> lv)"

text \<open>\<^verbatim>\<open>fileLogger.log\<close>: build the record and try to send it; a full channel drops it.\<close>

definition f_log :: "fileLogger \<Rightarrow> Level \<Rightarrow> string \<Rightarrow> traceinfo \<Rightarrow> world \<Rightarrow> fileLogger" where
  "f_log f lv msg ti w =
     (if f_enable f lv then
        (case ti of (fileName, funcName, lineNo) \<Rightarrow>
           (let logTmp = \<lparr>m_level = lv, m_msg = msg, m_funcName = funcName,
                          m_fileName = fileName,
                          m_timeStamp = time_Format w (f_timeFormat f) (now w),
                          m_line = lineNo\<rparr>
            in f\<lparr>logChan := try_send (logChan f) logTmp\<rparr>))
      else f)"

definition f_Debug :: "fileLogger \<Rightarrow> string \<Rightarrow> traceinfo \<Rightarrow> world \<Rightarrow> fileLogger" where
  "f_Debug f msg ti w = f_log f DEBUG msg ti w"
definition f_Info :: "fileLogger \<Rightarrow> string \<Rightarrow> traceinfo \<Rightarrow> world \<Rightarrow> fileLogger" where
  "f_Info f msg ti w = f_log f INFO msg ti w"
definition f_Warn :: "fileLogger \<Rightarrow> string \<Rightarrow> traceinfo \<Rightarrow> world \<Rightarrow> fileLogger" where
  "f_Warn f msg ti w = f_log f WARN msg ti w"
definition f_Error :: "fileLogger \<Rightarrow> string \<Rightarrow> traceinfo \<Rightarrow> world \<Rightarrow> fileLogger" where
  "f_Error f msg ti w = f_log f ERROR msg ti w"
definition f_Fatal :: "fileLogger \<Rightarrow> string \<Rightarrow> traceinfo \<Rightarrow> world \<Rightarrow> fileLogger" where
  "f_Fatal f msg ti w = f_log f FATAL msg ti w"

text \<open>\<^verbatim>\<open>checkSize\<close>: a failing \<^verbatim>\<open>Stat\<close> is printed and answers \<open>False\<close>.\<close>

definition checkSize :: "fileLogger \<Rightarrow> File \<Rightarrow> world \<Rightarrow> bool \<times> world" where
  "checkSize f file w =
     (case File_Stat file w of
        (Inl err, w1) \<Rightarrow>
          (False, fmt_Printf (''get file info failed, err:'' @ err @ [CHR 0x0A]) w1)
      | (Inr (name, sz), w1) \<Rightarrow> (sz \<ge> maxFileSize f, w1))"

definition checkTime :: "fileLogger \<Rightarrow> Time \<Rightarrow> bool" where
  "checkTime f nowTime = (Time_Sub nowTime (startTime f) \<ge> duration f)"

text \<open>
  \<^verbatim>\<open>splitFile\<close>: the suffix, then \<^verbatim>\<open>Stat\<close> (an error is printed and returned), \<^verbatim>\<open>Close\<close>
  and \<^verbatim>\<open>Rename\<close> with their errors discarded, and \<^verbatim>\<open>OpenFile\<close> (an error is printed and
  returned). The result is the error or the new descriptor.
\<close>

definition splitFile :: "fileLogger \<Rightarrow> File \<Rightarrow> 16 word \<Rightarrow> world \<Rightarrow> (string + nat) \<times> world" where
  "splitFile f file mode w =
     (let nowStr =
            (if mode = SplitBaseOnSize then time_Format w ''20060102150405'' (now w)
             else if mode = SplitBaseOnTime then
               (if go_rem (duration f) (Hour * 24) = 0
                  then time_Format w ''20060102'' (startTime f)
                else if go_rem (duration f) Hour = 0
                  then time_Format w ''2006010215'' (startTime f)
                else if go_rem (duration f) Minute = 0
                  then time_Format w ''200601021504'' (startTime f)
                else time_Format w ''20060102150405'' (startTime f))
             else [])
      in case File_Stat file w of
           (Inl err, w1) \<Rightarrow>
             (Inl err, fmt_Printf (''get file info failed, err:'' @ err @ [CHR 0x0A]) w1)
         | (Inr (name, sz), w1) \<Rightarrow>
             (let logName = path_Join [f_filePath f, name];
                  newLogName = logName @ ''.'' @ nowStr @ ''.bak'';
                  w2 = snd (File_Close file w1);
                  w3 = snd (os_Rename logName newLogName w2)
              in case os_OpenFile logName perm_0644 w3 of
                   (Inl err, w4) \<Rightarrow>
                     (Inl err,
                      fmt_Printf (''open new log file failed, err:'' @ err @ [CHR 0x0A]) w4)
                 | (Inr fileObj', w4) \<Rightarrow> (Inr fileObj', w4)))"

text \<open>
  \<^verbatim>\<open>splitFileByTime\<close>. The remainder by the interval is a run-time panic when the interval
  is zero; the first assignment to \<open>startTime\<close> is overwritten by the second, as in the
  source; the error of \<^verbatim>\<open>splitFile\<close> is a panic.
\<close>

definition splitFileByTime :: "fileLogger \<Rightarrow> Time \<Rightarrow> world \<Rightarrow> fileLogger outcome" where
  "splitFileByTime f logTime w =
     (if splitMode f = SplitBaseOnTime \<and> checkTime f logTime then
        (case splitFile f (fileObj f) SplitBaseOnTime w of
           (r, w1) \<Rightarrow>
             if duration f = 0 then Aborted (Panic ''integer divide by zero'') w1
             else
               (let subTime = go_rem (UnixNano logTime) (duration f);
                    f1 = (if go_div subTime Second = 0 then f\<lparr>startTime := logTime\<rparr>
                          else f\<lparr>startTime := Time_Add logTime subTime\<rparr>);
                    f2 = f1\<lparr>startTime := logTime\<rparr>
                in case r of
                     Inl err \<Rightarrow> Aborted (Panic err) w1
                   | Inr newFile \<Rightarrow> Done (f2\<lparr>fileObj := Some newFile\<rparr>) w1))
      else Done f w)"

text \<open>
  The line \<^verbatim>\<open>writeIntoFile\<close> renders: \<^verbatim>\<open>"[%s] [%s] [%s:%s:%d] %s\n"\<close> on
  \<^verbatim>\<open>timeStamp, l2S(level), funcName, fileName, line, msg\<close>, in the order the source passes
  them.
\<close>

definition logInfo :: "logMsg \<Rightarrow> string" where
  "logInfo logTmp =
     ''['' @ m_timeStamp logTmp @ ''] ['' @ l2S (m_level logTmp) @ ''] [''
     @ m_funcName logTmp @ '':'' @ m_fileName logTmp @ '':'' @ itoa (m_line logTmp) @ ''] ''
     @ m_msg logTmp @ [CHR 0x0A]"

text \<open>A failed parse leaves the zero time (its error is discarded).\<close>

definition parseLogTime :: "fileLogger \<Rightarrow> logMsg \<Rightarrow> world \<Rightarrow> Time" where
  "parseLogTime f logTmp w =
     (case time_Parse w (f_timeFormat f) (m_timeStamp logTmp) of
        None \<Rightarrow> zeroTime
      | Some t \<Rightarrow> t)"

definition writeIntoFile :: "fileLogger \<Rightarrow> logMsg \<Rightarrow> world \<Rightarrow> fileLogger outcome" where
  "writeIntoFile f logTmp w =
     (let logTime = parseLogTime f logTmp w
      in case splitFileByTime f logTime w of
           Aborted a w1 \<Rightarrow> Aborted a w1
         | Done f1 w1 \<Rightarrow> Done f1 (snd (fmt_Fprint (fileObj f1) (logInfo logTmp) w1)))"

text \<open>
  The inner loop entered on the close signal: every record received before the timer
  fires is written; \<open>msgs\<close> are these records, in order. (The loop receives from what is
  queued when it starts; records that producers add while it runs are left out.)
\<close>

fun drainLoop :: "fileLogger \<Rightarrow> logMsg list \<Rightarrow> world \<Rightarrow> fileLogger outcome" where
  "drainLoop f [] w = Done f w"
| "drainLoop f (logTmp # msgs) w =
     (case writeIntoFile f logTmp w of
        Aborted a w1 \<Rightarrow> Aborted a w1
      | Done f1 w1 \<Rightarrow> drainLoop f1 msgs w1)"

text \<open>
  What the runtime decides at a \<^verbatim>\<open>select\<close>: \<open>pick_close\<close>, whether the close signal wins
  when a record is ready as well (Go chooses among ready cases at random), and
  \<open>before_timer\<close>, how many of the queued records the inner loop receives before its
  timer fires.
\<close>

record sched =
  pick_close :: bool
  before_timer :: nat

datatype loopctl = Continue | Return

text \<open>The first statement of the loop body of \<^verbatim>\<open>writeLogBackground\<close>: rotation by size.\<close>

definition rotateBySize :: "fileLogger \<Rightarrow> world \<Rightarrow> fileLogger outcome" where
  "rotateBySize f w =
     (if splitMode f = SplitBaseOnSize then
        (case checkSize f (fileObj f) w of
           (True, w1) \<Rightarrow>
             (case splitFile f (fileObj f) SplitBaseOnSize w1 of
                (Inl err, w2) \<Rightarrow> Aborted (Panic err) w2
              | (Inr newFile, w2) \<Rightarrow> Done (f\<lparr>fileObj := Some newFile\<rparr>) w2)
         | (False, w1) \<Rightarrow> Done f w1)
      else Done f w)"

text \<open>
  The second statement: the \<^verbatim>\<open>select\<close> on the close channel, the record channel and the
  default case.
\<close>

definition selectStep :: "fileLogger \<Rightarrow> world \<Rightarrow> sched \<Rightarrow> (loopctl \<times> fileLogger) outcome" where
  "selectStep f w sch =
     (if closeChan f \<and> (buf (logChan f) = [] \<or> pick_close sch) then
        (let q = buf (logChan f);
             f0 = f\<lparr>closeChan := False,
                     logChan := (logChan f)\<lparr>buf := drop (before_timer sch) q\<rparr>\<rparr>
         in case drainLoop f0 (take (before_timer sch) q) w of
              Aborted a w1 \<Rightarrow> Aborted a w1
            | Done f1 w1 \<Rightarrow> Done (Return, f1) w1)
      else
        (case buf (logChan f) of
           logTmp # rest \<Rightarrow>
             (case writeIntoFile (f\<lparr>logChan := (logChan f)\<lparr>buf := rest\<rparr>\<rparr>) logTmp w of
                Aborted a w1 \<Rightarrow> Aborted a w1
              | Done f1 w1 \<Rightarrow> Done (Continue, f1) w1)
         | [] \<Rightarrow> Done (Continue, f) (time_Sleep (Millisecond * 500) w)))"

text \<open>One iteration of the \<^verbatim>\<open>for\<close> loop of \<^verbatim>\<open>writeLogBackground\<close>.\<close>

definition writeLogBackground_iter ::
    "fileLogger \<Rightarrow> world \<Rightarrow> sched \<Rightarrow> (loopctl \<times> fileLogger) outcome" where
  "writeLogBackground_iter f w sch =
     (case rotateBySize f w of
        Aborted a w1 \<Rightarrow> Aborted a w1
      | Done f1 w1 \<Rightarrow> selectStep f1 w1 sch)"

text \<open>
  The loop itself, run for the iterations a schedule describes: it stops when an iteration
  returns or panics, and is still running (\<open>Continue\<close>) when the schedule ends first.
\<close>

fun writeLogBackground ::
    "fileLogger \<Rightarrow> world \<Rightarrow> sched list \<Rightarrow> (loopctl \<times> fileLogger) outcome" where
  "writeLogBackground f w [] = Done (Continue, f) w"
| "writeLogBackground f w (sch # schs) =
     (case writeLogBackground_iter f w sch of
        Aborted a w1 \<Rightarrow> Aborted a w1
      | Done (Return, f1) w1 \<Rightarrow> Done (Return, f1) w1
      | Done (Continue, f1) w1 \<Rightarrow> writeLogBackground f1 w1 schs)"



text \<open>
  \<^verbatim>\<open>fileLogger.Close\<close>: the send on the close channel, then the file is closed, its error
  discarded. The channel is unbuffered, so the send returns only when the \<^verbatim>\<open>select\<close> of the
  worker has received it: the caller waits (\<open>closeChan\<close> is set) while the worker runs the
  iterations \<open>schs\<close> describes, the last of which receives. From then on the caller and
  the inner loop of the worker run side by side: the inner loop writes the records the
  schedule of that iteration gives it, the caller closes the file, and the inner loop
  writes \<open>later\<close> further records before its timer fires. The result is \<open>None\<close> when none
  of the iterations receives (the caller is still waiting), and the panic when the worker
  panics.
\<close>

definition f_Close ::
    "fileLogger \<Rightarrow> world \<Rightarrow> sched list \<Rightarrow> nat \<Rightarrow> fileLogger outcome option" where
  "f_Close f w schs later =
     (case writeLogBackground (f\<lparr>closeChan := True\<rparr>) w schs of
        Aborted a w1 \<Rightarrow> Some (Aborted a w1)
      | Done (Continue, f1) w1 \<Rightarrow> None
      | Done (Return, f1) w1 \<Rightarrow>
          (let w2 = snd (File_Close (fileObj f1) w1);
               q = buf (logChan f1)
           in Some (drainLoop (f1\<lparr>logChan := (logChan f1)\<lparr>buf := drop later q\<rparr>\<rparr>)
                      (take later q) w2)))"

section \<open>The logger facade\<close>

record Log =
  CLogger :: "consoleLogger option"
  FLogger :: "fileLogger option"
  isClose :: bool

definition fmt_Println :: "string \<Rightarrow> world \<Rightarrow> world" where
  "fmt_Println s w = emit (Printf (s @ [CHR 0x0A])) w"

definition New :: Log where
  "New = \<lparr>CLogger = Some newConsoleLogger, FLogger = None, isClose = False\<rparr>"

definition SetConsoleMode :: "Log \<Rightarrow> Log" where
  "SetConsoleMode l = l\<lparr>CLogger := Some newConsoleLogger, FLogger := None\<rparr>"





text \<open>\<^verbatim>\<open>s2L\<close>: the level and the error (\<^verbatim>\<open>nil\<close> is \<open>None\<close>).\<close>

definition s2L :: "string \<Rightarrow> world \<Rightarrow> Level \<times> string option" where
  "s2L str0 w =
     (let str = strings_ToLower w str0 in
      if str = ''debug'' then (DEBUG, None)
      else if str = ''info'' then (INFO, None)
      else if str = ''warn'' then (WARN, None)
      else if str = ''error'' then (ERROR, None)
      else if str = ''fatal'' then (FATAL, None)
      else (UNKNOWN, Some err_invalid_level))"

text \<open>
  \<^verbatim>\<open>SetLevel\<close>: the level \<^verbatim>\<open>s2L\<close> returned is stored in both loggers first, and only then
  is the error looked at. The logger is reached through a pointer, so the stores stand
  when the panic is raised: the result is the panic, if any, and the logger as it is left.
\<close>

definition SetLevel :: "Log \<Rightarrow> string \<Rightarrow> world \<Rightarrow> abort option \<times> Log" where
  "SetLevel l str w =
     (case s2L str w of
        (level, err) \<Rightarrow>
          (let l1 = (case CLogger l of
                       None \<Rightarrow> l
                     | Some c \<Rightarrow> l\<lparr>CLogger := Some (c\<lparr>c_level := level\<rparr>)\<rparr>);
               l2 = (case FLogger l1 of
                       None \<Rightarrow> l1
                     | Some f \<Rightarrow> l1\<lparr>FLogger := Some (f\<lparr>f_level := level\<rparr>)\<rparr>)
           in case err of
                Some e \<Rightarrow> (Some (Panic e), l2)
              | None \<Rightarrow> (None, l2)))"

definition SetTimeFormat :: "Log \<Rightarrow> string \<Rightarrow> Log" where
  "SetTimeFormat l format =
     (let l1 = (case CLogger l of
                  None \<Rightarrow> l
                | Some c \<Rightarrow> l\<lparr>CLogger := Some (c\<lparr>c_timeFormat := format\<rparr>)\<rparr>)
      in case FLogger l1 of
           None \<Rightarrow> l1
         | Some f \<Rightarrow> l1\<lparr>FLogger := Some (f\<lparr>f_timeFormat := format\<rparr>)\<rparr>)"

definition SetSplitMode :: "Log \<Rightarrow> 16 word \<Rightarrow> Log" where
  "SetSplitMode l mode =
     (case FLogger l of
        None \<Rightarrow> l
      | Some f \<Rightarrow> l\<lparr>FLogger := Some (f\<lparr>splitMode := mode\<rparr>)\<rparr>)"

definition SetMaxFileSize :: "Log \<Rightarrow> int \<Rightarrow> Log" where
  "SetMaxFileSize l sz =
     (case FLogger l of
        None \<Rightarrow> l
      | Some f \<Rightarrow> l\<lparr>FLogger := Some (f\<lparr>maxFileSize := sz\<rparr>)\<rparr>)"


text \<open>
  \<^verbatim>\<open>Log.Close\<close> calls \<^verbatim>\<open>Close\<close> on the file logger when there is one, and does nothing
  else.
\<close>

definition Log_Close :: "Log \<Rightarrow> world \<Rightarrow> sched list \<Rightarrow> nat \<Rightarrow> Log outcome option" where
  "Log_Close l w schs later =
     (case FLogger l of
        None \<Rightarrow> Some (Done l w)
      | Some f \<Rightarrow>
          (case f_Close f w schs later of
             None \<Rightarrow> None
           | Some (Aborted a w1) \<Rightarrow> Some (Aborted a w1)
           | Some (Done f1 w1) \<Rightarrow> Some (Done (l\<lparr>FLogger := Some f1\<rparr>) w1)))"

text \<open>
  The five log methods. Each one tests \<^verbatim>\<open>l.FLogger != nil && !l.isClose\<close>, then
  \<^verbatim>\<open>l.CLogger != nil && !l.isClose\<close>.
\<close>

definition Log_Debug :: "Log \<Rightarrow> string \<Rightarrow> traceinfo \<Rightarrow> world \<Rightarrow> Log \<times> world" where
  "Log_Debug l msg ti w =
     (let l1 = (case FLogger l of
                  Some f \<Rightarrow> if \<not> isClose l then l\<lparr>FLogger := Some (f_Debug f msg ti w)\<rparr> else l
                | None \<Rightarrow> l);
          w1 = (case CLogger l1 of
                  Some c \<Rightarrow> if \<not> isClose l1 then c_Debug c msg ti w else w
                | None \<Rightarrow> w)
      in (l1, w1))"

definition Log_Info :: "Log \<Rightarrow> string \<Rightarrow> traceinfo \<Rightarrow> world \<Rightarrow> Log \<times> world" where
  "Log_Info l msg ti w =
     (let l1 = (case FLogger l of
                  Some f \<Rightarrow> if \<not> isClose l then l\<lparr>FLogger := Some (f_Info f msg ti w)\<rparr> else l
                | None \<Rightarrow> l);
          w1 = (case CLogger l1 of
                  Some c \<Rightarrow> if \<not> isClose l1 then c_Info c msg ti w else w
                | None \<Rightarrow> w)
      in (l1, w1))"

definition Log_Warn :: "Log \<Rightarrow> string \<Rightarrow> traceinfo \<Rightarrow> world \<Rightarrow> Log \<times> world" where
  "Log_Warn l msg ti w =
     (let l1 = (case FLogger l of
                  Some f \<Rightarrow> if \<not> isClose l then l\<lparr>FLogger := Some (f_Warn f msg ti w)\<rparr> else l
                | None \<Rightarrow> l);
          w1 = (case CLogger l1 of
                  Some c \<Rightarrow> if \<not> isClose l1 then c_Warn c msg ti w else w
                | None \<Rightarrow> w)
      in (l1, w1))"

definition Log_Error :: "Log \<Rightarrow> string \<Rightarrow> traceinfo \<Rightarrow> world \<Rightarrow> Log \<times> world" where
  "Log_Error l msg ti w =
     (let l1 = (case FLogger l of
                  Some f \<Rightarrow> if \<not> isClose l then l\<lparr>FLogger := Some (f_Error f msg ti w)\<rparr> else l
                | None \<Rightarrow> l);
          w1 = (case CLogger l1 of
                  Some c \<Rightarrow> if \<not> isClose l1 then c_Error c msg ti w else w
                | None \<Rightarrow> w)
      in (l1, w1))"

definition Log_Fatal :: "Log \<Rightarrow> string \<Rightarrow> traceinfo \<Rightarrow> world \<Rightarrow> Log \<times> world" where
  "Log_Fatal l msg ti w =
     (let l1 = (case FLogger l of
                  Some f \<Rightarrow> if \<not> isClose l then l\<lparr>FLogger := Some (f_Fatal f msg ti w)\<rparr> else l
                | None \<Rightarrow> l);
          w1 = (case CLogger l1 of
                  Some c \<Rightarrow> if \<not> isClose l1 then c_Fatal c msg ti w else w
                | None \<Rightarrow> w)
      in (l1, w1))"

text \<open>The five methods by name, and the level each one logs at.\<close>

datatype logMethod = MDebug | MInfo | MWarn | MError | MFatal

fun methodLevel :: "logMethod \<Rightarrow> Level" where
  "methodLevel MDebug = DEBUG"
| "methodLevel MInfo = INFO"
| "methodLevel MWarn = WARN"
| "methodLevel MError = ERROR"
| "methodLevel MFatal = FATAL"

fun Log_call :: "logMethod \<Rightarrow> Log \<Rightarrow> string \<Rightarrow> traceinfo \<Rightarrow> world \<Rightarrow> Log \<times> world" where
  "Log_call MDebug l msg ti w = Log_Debug l msg ti w"
| "Log_call MInfo l msg ti w = Log_Info l msg ti w"
| "Log_call MWarn l msg ti w = Log_Warn l msg ti w"
| "Log_call MError l msg ti w = Log_Error l msg ti w"
| "Log_call MFatal l msg ti w = Log_Fatal l msg ti w"

text \<open>
  The goroutine \<^verbatim>\<open>New\<close> starts, from the moment a termination signal arrives: it prints,
  sets \<open>isClose\<close>, sleeps half a second and calls \<^verbatim>\<open>Close\<close>. The process then exits with
  status 1; the result is the state \<^verbatim>\<open>Close\<close> leaves, in which it exits.
\<close>

definition signalHandler ::
    "Log \<Rightarrow> world \<Rightarrow> sched list \<Rightarrow> nat \<Rightarrow> Log outcome option" where
  "signalHandler logger w schs later =
     (let w1 = fmt_Println ''Cleaning before stop...'' w;
          l1 = logger\<lparr>isClose := True\<rparr>;
          w2 = time_Sleep (Millisecond * 500) w1
      in Log_Close l1 w2 schs later)"

section \<open>Vocabulary of the claims\<close>

text \<open>A world with further calls appended to its trace.\<close>

definition withCalls :: "world \<Rightarrow> event list \<Rightarrow> world" where
  "withCalls w evs = w\<lparr>trace := trace w @ evs\<rparr>"

text \<open>
  Kinds of events: a write to a file, a line on standard output, the idle sleep.
\<close>

fun isWrite :: "event \<Rightarrow> bool" where
  "isWrite (Fprint fobj s) = True"
| "isWrite e = False"

fun isPrintf :: "event \<Rightarrow> bool" where
  "isPrintf (Printf s) = True"
| "isPrintf e = False"

fun isSleep :: "event \<Rightarrow> bool" where
  "isSleep (Sleep d) = True"
| "isSleep e = False"

text \<open>
  The suffix \<^verbatim>\<open>splitFile\<close> computes (its local \<^verbatim>\<open>nowStr\<close>), and the four calls of a rotation
  that succeeds on the file \<open>fobj\<close> whose \<^verbatim>\<open>Stat\<close> reports the name \<open>name\<close>.
\<close>

definition backupSuffix :: "fileLogger \<Rightarrow> 16 word \<Rightarrow> world \<Rightarrow> string" where
  "backupSuffix f mode w =
     (if mode = SplitBaseOnSize then time_Format w ''20060102150405'' (now w)
      else if mode = SplitBaseOnTime then
        (if go_rem (duration f) (Hour * 24) = 0
           then time_Format w ''20060102'' (startTime f)
         else if go_rem (duration f) Hour = 0
           then time_Format w ''2006010215'' (startTime f)
         else if go_rem (duration f) Minute = 0
           then time_Format w ''200601021504'' (startTime f)
         else time_Format w ''20060102150405'' (startTime f))
      else [])"

definition rotationCalls :: "fileLogger \<Rightarrow> File \<Rightarrow> 16 word \<Rightarrow> world \<Rightarrow> string \<Rightarrow> event list" where
  "rotationCalls f fobj mode w name =
     [Stat fobj, CloseFile fobj,
      Rename (path_Join [f_filePath f, name])
             (path_Join [f_filePath f, name] @ ''.'' @ backupSuffix f mode w @ ''.bak''),
      OpenFile (path_Join [f_filePath f, name]) perm_0644]"

text \<open>
  \<open>sizeReached\<close>: at the top of an iteration, \<^verbatim>\<open>Stat\<close> on the current file succeeds and
  reports a size of at least \<open>maxFileSize\<close>.
\<close>

definition sizeReached :: "fileLogger \<Rightarrow> world \<Rightarrow> bool" where
  "sizeReached f w =
     (case fst (File_Stat (fileObj f) w) of
        Inl err \<Rightarrow> False
      | Inr (name, sz) \<Rightarrow> sz \<ge> maxFileSize f)"

text \<open>
  \<open>statReport\<close>: what the size check prints when its \<^verbatim>\<open>Stat\<close> fails (nothing when it
  succeeds). \<open>recordWrites\<close>: the writes of the records \<open>ms\<close>, in order, to the file \<open>fobj\<close>.
\<close>

definition statReport :: "fileLogger \<Rightarrow> world \<Rightarrow> event list" where
  "statReport f w =
     (case fst (File_Stat (fileObj f) w) of
        Inl err \<Rightarrow> [Printf (''get file info failed, err:'' @ err @ [CHR 0x0A])]
      | Inr p \<Rightarrow> [])"

definition recordWrites :: "File \<Rightarrow> logMsg list \<Rightarrow> event list" where
  "recordWrites fobj ms = map (\<lambda>m. Fprint fobj (logInfo m)) ms"

text \<open>
  \<open>rotationFailed\<close>: the panic carries the error that \<^verbatim>\<open>splitFile\<close> has just printed (for
  its \<^verbatim>\<open>Stat\<close> or for its \<^verbatim>\<open>OpenFile\<close>).
\<close>

definition rotationFailed :: "abort \<Rightarrow> world \<Rightarrow> bool" where
  "rotationFailed a w =
     (case a of
        Exit n \<Rightarrow> False
      | Panic err \<Rightarrow>
          trace w \<noteq> []
          \<and> (last (trace w) = Printf (''get file info failed, err:'' @ err @ [CHR 0x0A])
               \<or> last (trace w) = Printf (''open new log file failed, err:'' @ err @ [CHR 0x0A])))"

text \<open>\<open>statOpenSucceed\<close>: the world answers every \<^verbatim>\<open>Stat\<close> and every \<^verbatim>\<open>OpenFile\<close> with success.\<close>

definition statOpenSucceed :: "world \<Rightarrow> bool" where
  "statOpenSucceed w =
     ((\<forall>tr h. \<exists>name sz. os_stat w tr h = Inr (name, sz)) \<and> (\<forall>tr name. \<exists>h. os_open w tr name = Inr h))"

text \<open>
  A sequence of producer calls of \<^verbatim>\<open>fileLogger.log\<close> with no worker iteration in between
  (no consumer running): each call has its level, its message, its call site and the
  world it reads the clock from. \<open>sentMsg\<close> is the record such a call builds.
\<close>

type_synonym logCall = "Level \<times> string \<times> traceinfo \<times> world"

definition sentMsg :: "string \<Rightarrow> logCall \<Rightarrow> logMsg" where
  "sentMsg layout c =
     (case c of (lv, msg, (fileName, funcName, lineNo), w) \<Rightarrow>
        \<lparr>m_level = lv, m_msg = msg, m_funcName = funcName, m_fileName = fileName,
         m_timeStamp = time_Format w layout (now w), m_line = lineNo\<rparr>)"

fun f_log_all :: "fileLogger \<Rightarrow> logCall list \<Rightarrow> fileLogger" where
  "f_log_all f [] = f"
| "f_log_all f ((lv, msg, ti, w) # cs) = f_log_all (f_log f lv msg ti w) cs"

section \<open>Example inputs\<close>

text \<open>
  A world in which every call succeeds: \<^verbatim>\<open>OpenFile\<close> returns a fresh descriptor, \<^verbatim>\<open>Stat\<close>
  reports an empty file named \<^verbatim>\<open>ALog.log\<close>, the clock stands at 2022-03-25 20:24:24 UTC
  (\<open>T1\<close>), the instants \<open>T1\<close> and \<open>T2\<close> (2022-03-26 00:00:01 UTC) are formatted and parsed
  under the default layout, \<open>T0\<close> (2022-03-25 23:59:59 UTC) is parsed, two rotation
  suffixes are formatted as well, and lower case is taken letter by letter on ASCII text.
\<close>

definition T0 :: Time where "T0 = 1648252799000000000"
definition T1 :: Time where "T1 = 1648239864000000000"
definition T2 :: Time where "T2 = 1648252801000000000"

definition ex_Parse :: "string \<Rightarrow> string \<Rightarrow> Time option" where
  "ex_Parse layout s =
     (if layout = defaultTimeFormat
      then map_of [(''2022-03-25 20:24:24'', T1), (''2022-03-26 00:00:01'', T2),
                   (''2022-03-25 23:59:59'', T0)] s
      else None)"

definition ex_Format :: "string \<Rightarrow> Time \<Rightarrow> string" where
  "ex_Format layout t =
     (case map_of [((defaultTimeFormat, T1), ''2022-03-25 20:24:24''),
                   ((defaultTimeFormat, T2), ''2022-03-26 00:00:01''),
                   ((''20060102'', 1648166400000000000), ''20220325''),
                   ((''20060102150405'', T1), ''20220325202424'')] (layout, t) of
        Some s \<Rightarrow> s
      | None \<Rightarrow> layout)"

text \<open>Lower case on ASCII text: the letters A to Z are mapped to a to z.\<close>

definition lower_char :: "char \<Rightarrow> char" where
  "lower_char c =
     (case map_of (zip ''ABCDEFGHIJKLMNOPQRSTUVWXYZ'' ''abcdefghijklmnopqrstuvwxyz'') c of
        None \<Rightarrow> c
      | Some d \<Rightarrow> d)"

definition ex_ToLower :: "string \<Rightarrow> string" where
  "ex_ToLower s = map lower_char s"

definition ex_world :: world where
  "ex_world = \<lparr>trace = [], now = T1,
      os_error = (\<lambda>tr e. None),
      os_open = (\<lambda>tr name. Inr (length tr)),
      os_stat = (\<lambda>tr h. Inr (''ALog.log'', 0)),
      time_Format = ex_Format, time_Parse = ex_Parse,
      strings_ToLower = ex_ToLower\<rparr>"

text \<open>The file logger \<^verbatim>\<open>newFileLogger\<close> builds in that world, and the world it leaves.\<close>

definition ex_fileLogger :: fileLogger where
  "ex_fileLogger =
     \<lparr>f_level = DEBUG, f_timeFormat = defaultTimeFormat, f_filePath = defaultFilePath,
      f_fileName = defaultFileName, logChan = make_chan defaultMaxChanSize,
      closeChan = False, fileObj = Some 1, splitMode = SplitNone,
      maxFileSize = defaultMaxFileSize, duration = defaultDuration,
      startTime = 1648166400000000000\<rparr>"

definition ex_started :: world where
  "ex_started = ex_world\<lparr>trace := [MkdirAll ''./log/'', OpenFile ''log/ALog.log'' 511,
                                    GoWriteLogBackground (Some 1)]\<rparr>"

text \<open>A call site \<^verbatim>\<open>main.go:main:10\<close> and the record a \<^verbatim>\<open>Debug("hello")\<close> there builds.\<close>

definition ex_ti :: traceinfo where
  "ex_ti = (''main.go'', ''main'', 10)"

definition ex_logMsg :: logMsg where
  "ex_logMsg = \<lparr>m_level = DEBUG, m_msg = ''hello'', m_funcName = ''main'',
                m_fileName = ''main.go'', m_timeStamp = ''2022-03-25 20:24:24'', m_line = 10\<rparr>"

text \<open>A file logger whose channel holds two records, and three calls on it.\<close>

definition ex_small :: fileLogger where
  "ex_small = ex_fileLogger\<lparr>logChan := make_chan 2\<rparr>"

definition ex_calls :: "logCall list" where
  "ex_calls = [(DEBUG, ''one'', ex_ti, ex_started), (WARN, ''two'', ex_ti, ex_started),
               (FATAL, ''three'', ex_ti, ex_started)]"

text \<open>The logger after \<^verbatim>\<open>New().SetBothMode()\<close>, and the same with both sinks at \<open>INFO\<close>.\<close>

definition ex_Log :: Log where
  "ex_Log = \<lparr>CLogger = Some newConsoleLogger, FLogger = Some ex_fileLogger, isClose = False\<rparr>"

definition ex_Log_info :: Log where
  "ex_Log_info = \<lparr>CLogger = Some (newConsoleLogger\<lparr>c_level := INFO\<rparr>),
                  FLogger = Some (ex_fileLogger\<lparr>f_level := INFO\<rparr>), isClose = False\<rparr>"

text \<open>
  The world after \<^verbatim>\<open>Close\<close> was called on \<open>ex_Log\<close>; a file logger
  whose path fields were set after the file was opened; \<open>ex_daily\<close>, the started file
  logger set to rotate by time (anchored at the start of 2022-03-25), \<open>ex_late\<close> and
  \<open>ex_rotated\<close>, that logger and the world once it has written a record stamped \<open>T2\<close>;
  and records stamped \<open>T2\<close> and \<open>T0\<close>.
\<close>

definition ex_after_close :: world where
  "ex_after_close = emit (CloseFile (Some 1)) ex_started"


definition ex_daily :: fileLogger where
  "ex_daily = ex_fileLogger\<lparr>splitMode := SplitBaseOnTime\<rparr>"

definition ex_late :: fileLogger where
  "ex_late = ex_daily\<lparr>startTime := T2, fileObj := Some 6\<rparr>"

definition ex_rotated :: world where
  "ex_rotated =
     ex_started\<lparr>trace := trace ex_started @
        [Stat (Some 1), CloseFile (Some 1),
         Rename ''log/ALog.log'' ''log/ALog.log.20220325.bak'',
         OpenFile ''log/ALog.log'' 420,
         Fprint (Some 6) (''[2022-03-26 00:00:01] [INFO] [main:main.go:11] next day''
                            @ [CHR 0x0A])]\<rparr>"

definition ex_logMsg0 :: logMsg where
  "ex_logMsg0 = \<lparr>m_level = INFO, m_msg = ''last of the day'', m_funcName = ''worker'',
                 m_fileName = ''job.go'', m_timeStamp = ''2022-03-25 23:59:59'', m_line = 42\<rparr>"

definition ex_logMsg2 :: logMsg where
  "ex_logMsg2 = \<lparr>m_level = INFO, m_msg = ''next day'', m_funcName = ''main'',
                 m_fileName = ''main.go'', m_timeStamp = ''2022-03-26 00:00:01'', m_line = 11\<rparr>"

text \<open>
  Worlds that fail: \<open>ex_full\<close> reports a log file of the maximal size; \<open>ex_readonly\<close> does
  so too and refuses to open a file; \<open>ex_nospace\<close> fails every write, close and rename;
  in \<open>ex_nostat\<close> every \<^verbatim>\<open>Stat\<close> fails. \<open>ex_sized\<close> rotates by size and has one record
  queued; \<open>ex_sched\<close> is a schedule in which no close signal wins.
\<close>

definition ex_full :: world where
  "ex_full = ex_started\<lparr>os_stat := (\<lambda>tr h. Inr (''ALog.log'', 8388608))\<rparr>"

definition ex_readonly :: world where
  "ex_readonly = ex_full\<lparr>os_open := (\<lambda>tr name. Inl ''permission denied'')\<rparr>"

definition ex_nospace :: world where
  "ex_nospace = ex_started\<lparr>os_error := (\<lambda>tr e. Some ''no space left on device'')\<rparr>"

definition ex_nostat :: world where
  "ex_nostat = ex_started\<lparr>os_stat := (\<lambda>tr h. Inl ''bad file descriptor'')\<rparr>"

definition ex_sized :: fileLogger where
  "ex_sized = ex_fileLogger\<lparr>splitMode := SplitBaseOnSize,
                            logChan := \<lparr>buf = [ex_logMsg], cap = 50000\<rparr>\<rparr>"

definition ex_sched :: sched where
  "ex_sched = \<lparr>pick_close = False, before_timer = 0\<rparr>"

section \<open>Facts about the model\<close>

subsection \<open>Names for groups of definitions\<close>

lemmas Level_defs = UNKNOWN_def DEBUG_def INFO_def WARN_def ERROR_def FATAL_def

lemmas Split_defs = SplitNone_def SplitBaseOnSize_def SplitBaseOnTime_def

lemmas Duration_defs = Nanosecond_def Millisecond_def Second_def Minute_def Hour_def

lemmas default_defs = defaultLevel_def defaultTimeFormat_def defaultFilePath_def
  defaultFileName_def defaultMaxFileSize_def defaultMaxChanSize_def defaultDuration_def

lemmas os_defs = emit_def call_def os_MkdirAll_def os_OpenFile_def File_Stat_def
  File_Close_def os_Rename_def fmt_Fprint_def fmt_Printf_def time_Sleep_def fmt_Println_def

lemmas step_defs = writeLogBackground_iter_def rotateBySize_def checkSize_def splitFile_def
  selectStep_def writeIntoFile_def splitFileByTime_def parseLogTime_def checkTime_def

lemmas ex_defs = ex_world_def ex_started_def ex_full_def ex_readonly_def ex_nospace_def
  ex_nostat_def ex_sized_def ex_sched_def ex_fileLogger_def ex_logMsg_def ex_Format_def
  ex_Parse_def T1_def

subsection \<open>Strings, instants and levels\<close>

lemma itoa_10: "itoa 10 = ''10''"
  by (simp add: itoa_def natToDec.simps digit_char_def)

lemma itoa_11: "itoa 11 = ''11''"
  by (simp add: itoa_def natToDec.simps digit_char_def)

lemma path_Join_default: "path_Join [''./log/'', ''ALog.log''] = ''log/ALog.log''"
  by (simp add: path_Join_def path_Clean_def)

lemma s2L_invalid:
  "strings_ToLower w str \<notin> {''debug'', ''info'', ''warn'', ''error'', ''fatal''} \<Longrightarrow>
   s2L str w = (UNKNOWN, Some err_invalid_level)"
  by (simp add: s2L_def Let_def)



lemma Time_Sub_less:
  assumes "d \<le> maxDuration" "\<not> d \<le> Time_Sub t s"
  shows "t < s + d"
  using assms by (auto simp: Time_Sub_def split: if_splits)

lemma Time_Sub_ge_pos:
  assumes "0 < d" "d \<le> Time_Sub t s"
  shows "s \<le> t"
  using assms by (auto simp: Time_Sub_def minDuration_def maxDuration_def split: if_splits)

subsection \<open>The trace\<close>

lemma snd_fmt_Fprint [simp]: "snd (fmt_Fprint fobj s w) = emit (Fprint fobj s) w"
  by (cases fobj) (simp_all add: fmt_Fprint_def call_def)

lemma snd_File_Close [simp]: "snd (File_Close fobj w) = emit (CloseFile fobj) w"
  by (cases fobj) (simp_all add: File_Close_def call_def)

lemma snd_os_Rename [simp]: "snd (os_Rename a b w) = emit (Rename a b) w"
  by (simp add: os_Rename_def call_def)

lemma trace_emit [simp]: "trace (emit e w) = trace w @ [e]"
  by (simp add: emit_def)

lemma world_emit [simp]:
  "now (emit e w) = now w" "os_error (emit e w) = os_error w" "os_open (emit e w) = os_open w"
  "os_stat (emit e w) = os_stat w" "time_Format (emit e w) = time_Format w"
  "time_Parse (emit e w) = time_Parse w" "strings_ToLower (emit e w) = strings_ToLower w"
  by (simp_all add: emit_def)

lemma emit_withCalls: "emit e w = withCalls w [e]"
  by (simp add: emit_def withCalls_def)

lemma withCalls_withCalls [simp]: "withCalls (withCalls w xs) ys = withCalls w (xs @ ys)"
  by (simp add: withCalls_def)

lemma withCalls_Nil [simp]: "withCalls w [] = w"
  by (simp add: withCalls_def)

lemma withCalls_fields [simp]:
  "trace (withCalls w evs) = trace w @ evs"
  "now (withCalls w evs) = now w" "os_error (withCalls w evs) = os_error w"
  "os_open (withCalls w evs) = os_open w" "os_stat (withCalls w evs) = os_stat w"
  "time_Format (withCalls w evs) = time_Format w" "time_Parse (withCalls w evs) = time_Parse w"
  "strings_ToLower (withCalls w evs) = strings_ToLower w"
  by (simp_all add: withCalls_def)

lemma statOpenSucceed_withCalls [simp]: "statOpenSucceed (withCalls w evs) = statOpenSucceed w"
  by (simp add: statOpenSucceed_def)

lemma snd_File_Stat [simp]: "snd (File_Stat fobj w) = withCalls w [Stat fobj]"
  by (simp add: File_Stat_def emit_withCalls)

lemma File_Stat_eq:
  assumes "fst (File_Stat fobj w) = r"
  shows "File_Stat fobj w = (r, withCalls w [Stat fobj])"
proof -
  have "File_Stat fobj w = (fst (File_Stat fobj w), snd (File_Stat fobj w))"
    by (rule prod.collapse [symmetric])
  then show ?thesis by (simp only: assms snd_File_Stat)
qed

lemma os_OpenFile_withCalls:
  "os_OpenFile name perm w = (os_open w (trace w) name, withCalls w [OpenFile name perm])"
  by (simp add: os_OpenFile_def emit_withCalls)

lemma same_pair: "x = (a, b) \<Longrightarrow> x = (c, d) \<Longrightarrow> a = c \<and> b = d"
  by simp

subsection \<open>The sinks and the facade\<close>

lemma f_log_enabled:
  "f_enable f lv \<Longrightarrow>
   f_log f lv msg ti w = f\<lparr>logChan := try_send (logChan f) (sentMsg (f_timeFormat f) (lv, msg, ti, w))\<rparr>"
  by (cases ti) (simp add: f_log_def sentMsg_def)

lemma f_log_disabled: "\<not> f_enable f lv \<Longrightarrow> f_log f lv msg ti w = f"
  by (simp add: f_log_def)

lemma c_log_disabled: "\<not> c_enable c lv \<Longrightarrow> c_log c lv msg ti w = w"
  by (simp add: c_log_def)

lemma f_log_all_enabled:
  "\<forall>c\<in>set calls. f_enable f (fst c) \<Longrightarrow>
   f_log_all f calls =
     f\<lparr>logChan := (logChan f)\<lparr>buf := buf (logChan f) @
          take (cap (logChan f) - length (buf (logChan f)))
            (map (sentMsg (f_timeFormat f)) calls)\<rparr>\<rparr>"
proof (induction calls arbitrary: f)
  case Nil
  then show ?case by simp
next
  case (Cons c cs)
  obtain lv msg ti w where c: "c = (lv, msg, ti, w)" by (cases c) auto
  let ?f1 = "f_log f lv msg ti w"
  from Cons.prems c have en: "f_enable f lv" by simp
  have f1: "?f1 = f\<lparr>logChan := try_send (logChan f) (sentMsg (f_timeFormat f) c)\<rparr>"
    using en c by (simp add: f_log_enabled)
  have en1: "\<forall>c\<in>set cs. f_enable ?f1 (fst c)"
    using Cons.prems by (simp add: f1 f_enable_def)
  have "f_log_all f (c # cs) = f_log_all ?f1 cs" by (simp add: c)
  also have "\<dots> = ?f1\<lparr>logChan := (logChan ?f1)\<lparr>buf := buf (logChan ?f1) @
          take (cap (logChan ?f1) - length (buf (logChan ?f1)))
            (map (sentMsg (f_timeFormat ?f1)) cs)\<rparr>\<rparr>"
    by (rule Cons.IH [OF en1])
  also have "\<dots> = f\<lparr>logChan := (logChan f)\<lparr>buf := buf (logChan f) @
          take (cap (logChan f) - length (buf (logChan f)))
            (map (sentMsg (f_timeFormat f)) (c # cs))\<rparr>\<rparr>"
  proof (cases "length (buf (logChan f)) < cap (logChan f)")
    case True
    then obtain n where n: "cap (logChan f) - length (buf (logChan f)) = Suc n"
      by (cases "cap (logChan f) - length (buf (logChan f))") auto
    then have n': "cap (logChan f) - Suc (length (buf (logChan f))) = n" by arith
    show ?thesis using True by (simp add: f1 try_send_def n n')
  next
    case False
    then show ?thesis by (simp add: f1 try_send_def)
  qed
  finally show ?case .
qed

lemma closed_log_is_noop: "isClose l \<Longrightarrow> Log_call m l msg ti w = (l, w)"
  by (cases m)
     (simp_all add: Log_Debug_def Log_Info_def Log_Warn_def Log_Error_def Log_Fatal_def
        split: option.splits)

lemma Log_Close_keeps_isClose:
  "Log_Close l w schs later = Some (Done l' w') \<Longrightarrow> isClose l' = isClose l"
  by (auto simp: Log_Close_def split: option.splits outcome.splits)

lemma signalHandler_sets_isClose:
  "signalHandler l w schs later = Some (Done l' w') \<Longrightarrow> isClose l'"
  by (auto simp: signalHandler_def Let_def dest: Log_Close_keeps_isClose)



subsection \<open>Rotation\<close>

lemma splitFile_stat_failed:
  assumes "fst (File_Stat fobj w) = Inl err"
  shows "splitFile f fobj mode w =
           (Inl err, withCalls w [Stat fobj, Printf (''get file info failed, err:'' @ err @ [CHR 0x0A])])"
proof -
  have st: "File_Stat fobj w = (Inl err, withCalls w [Stat fobj])"
    by (rule File_Stat_eq [OF assms])
  show ?thesis
    unfolding splitFile_def Let_def st
    by (simp add: fmt_Printf_def emit_withCalls)
qed

lemma splitFile_stat_ok:
  assumes "fst (File_Stat fobj w) = Inr (name, sz)"
  shows "splitFile f fobj mode w =
           (case os_open w (trace w @ butlast (rotationCalls f fobj mode w name))
                   (path_Join [f_filePath f, name]) of
              Inl err \<Rightarrow>
                (Inl err, withCalls w (rotationCalls f fobj mode w name @
                   [Printf (''open new log file failed, err:'' @ err @ [CHR 0x0A])]))
            | Inr n \<Rightarrow> (Inr n, withCalls w (rotationCalls f fobj mode w name)))"
proof -
  have st: "File_Stat fobj w = (Inr (name, sz), withCalls w [Stat fobj])"
    by (rule File_Stat_eq [OF assms])
  show ?thesis
    unfolding splitFile_def Let_def st backupSuffix_def [symmetric]
    by (simp add: os_OpenFile_withCalls fmt_Printf_def emit_withCalls rotationCalls_def
          split: sum.splits)
qed

lemma rotationCalls_props [simp]:
  "list_all (\<lambda>e. \<not> isPrintf e) (rotationCalls f fobj mode w name)"
  "list_all (\<lambda>e. \<not> isWrite e) (rotationCalls f fobj mode w name)"
  "rotationCalls f fobj mode w name \<noteq> []"
  by (simp_all add: rotationCalls_def)

lemma rotationCalls_withCalls:
  "rotationCalls f fobj mode (withCalls w evs) name = rotationCalls f fobj mode w name"
  by (simp add: rotationCalls_def backupSuffix_def)

lemma splitFile_failed:
  assumes "splitFile f fobj mode w = (Inl err, w')"
  shows "rotationFailed (Panic err) w'"
proof (cases "fst (File_Stat fobj w)")
  case (Inl e)
  from same_pair [OF assms splitFile_stat_failed [OF Inl]]
  show ?thesis by (simp add: rotationFailed_def)
next
  case (Inr p)
  obtain name sz where p: "p = (name, sz)" by (cases p)
  let ?o = "os_open w (trace w @ butlast (rotationCalls f fobj mode w name))
                   (path_Join [f_filePath f, name])"
  note ok = splitFile_stat_ok [OF Inr [unfolded p], of f mode]
  show ?thesis
  proof (cases ?o)
    case (Inl e)
    from same_pair [OF assms ok [unfolded Inl sum.case]]
    show ?thesis by (simp add: rotationFailed_def)
  next
    case (Inr n)
    from same_pair [OF assms ok [unfolded Inr sum.case]]
    show ?thesis by simp
  qed
qed

lemma splitFile_Inr:
  assumes "splitFile f fobj mode w = (Inr n, w')"
  shows "\<exists>name sz. fst (File_Stat fobj w) = Inr (name, sz)
           \<and> w' = withCalls w (rotationCalls f fobj mode w name)"
proof (cases "fst (File_Stat fobj w)")
  case (Inl e)
  from same_pair [OF assms splitFile_stat_failed [OF Inl]]
  show ?thesis by simp
next
  case (Inr p)
  obtain name sz where p: "p = (name, sz)" by (cases p)
  let ?o = "os_open w (trace w @ butlast (rotationCalls f fobj mode w name))
                   (path_Join [f_filePath f, name])"
  note ok = splitFile_stat_ok [OF Inr [unfolded p], of f mode]
  have "w' = withCalls w (rotationCalls f fobj mode w name)"
  proof (cases ?o)
    case (Inl e)
    from same_pair [OF assms ok [unfolded Inl sum.case]]
    show ?thesis by simp
  next
    case (Inr k)
    from same_pair [OF assms ok [unfolded Inr sum.case]]
    show ?thesis by simp
  qed
  with Inr p show ?thesis by blast
qed

lemma splitFile_succeeds:
  assumes "statOpenSucceed w"
  shows "\<exists>n name. splitFile f (Some h) mode w =
           (Inr n, withCalls w (rotationCalls f (Some h) mode w name))"
proof -
  from assms obtain name sz where st: "os_stat w (trace w) h = Inr (name, sz)"
    unfolding statOpenSucceed_def by blast
  then have fs: "fst (File_Stat (Some h) w) = Inr (name, sz)"
    by (simp add: File_Stat_def)
  from assms obtain n where
    "os_open w (trace w @ butlast (rotationCalls f (Some h) mode w name))
       (path_Join [f_filePath f, name]) = Inr n"
    unfolding statOpenSucceed_def by blast
  with splitFile_stat_ok [OF fs, of f mode] show ?thesis by auto
qed

lemma splitFileByTime_idle:
  "\<not> (splitMode f = SplitBaseOnTime \<and> checkTime f t) \<Longrightarrow> splitFileByTime f t w = Done f w"
  by (auto simp: splitFileByTime_def)

lemma splitFileByTime_due:
  assumes "splitMode f = SplitBaseOnTime" "checkTime f t"
    and "splitFile f (fileObj f) SplitBaseOnTime w = (r, w1)"
  shows "splitFileByTime f t w =
           (if duration f = 0 then Aborted (Panic ''integer divide by zero'') w1
            else case r of
                   Inl err \<Rightarrow> Aborted (Panic err) w1
                 | Inr n \<Rightarrow> Done (f\<lparr>startTime := t, fileObj := Some n\<rparr>) w1)"
  using assms by (simp add: splitFileByTime_def Let_def split: sum.splits)

lemma splitFileByTime_Done:
  assumes "splitFileByTime f t w = Done f1 w1"
  shows "(f1 = f \<and> w1 = w)
       \<or> (\<exists>n name. f1 = f\<lparr>startTime := t, fileObj := Some n\<rparr>
             \<and> w1 = withCalls w (rotationCalls f (fileObj f) SplitBaseOnTime w name))"
proof (cases "splitMode f = SplitBaseOnTime \<and> checkTime f t")
  case False
  with assms show ?thesis by (simp add: splitFileByTime_idle)
next
  case True
  obtain r w2 where sp: "splitFile f (fileObj f) SplitBaseOnTime w = (r, w2)"
    by (cases "splitFile f (fileObj f) SplitBaseOnTime w")
  from True have due: "splitMode f = SplitBaseOnTime" "checkTime f t" by simp_all
  note eq = splitFileByTime_due [OF due sp]
  show ?thesis
  proof (cases r)
    case (Inl err)
    with assms eq show ?thesis by (simp split: if_splits)
  next
    case (Inr n)
    from splitFile_Inr [OF sp [unfolded Inr]] obtain name where
      "w2 = withCalls w (rotationCalls f (fileObj f) SplitBaseOnTime w name)" by blast
    with assms eq Inr show ?thesis by (auto split: if_splits)
  qed
qed

lemma splitFileByTime_Aborted:
  assumes "splitFileByTime f t w = Aborted a w1"
  shows "splitMode f = SplitBaseOnTime
       \<and> (duration f = 0 \<or> rotationFailed a w1)"
proof (cases "splitMode f = SplitBaseOnTime \<and> checkTime f t")
  case False
  with assms show ?thesis by (simp add: splitFileByTime_idle)
next
  case True
  obtain r w2 where sp: "splitFile f (fileObj f) SplitBaseOnTime w = (r, w2)"
    by (cases "splitFile f (fileObj f) SplitBaseOnTime w")
  from True have due: "splitMode f = SplitBaseOnTime" "checkTime f t" by simp_all
  note eq = splitFileByTime_due [OF due sp]
  show ?thesis
  proof (cases r)
    case (Inl err)
    from splitFile_failed [OF sp [unfolded Inl]] have "rotationFailed (Panic err) w2" .
    with assms eq Inl due show ?thesis by (auto split: if_splits)
  next
    case (Inr n)
    with assms eq due show ?thesis by (auto split: if_splits)
  qed
qed

lemma splitFileByTime_succeeds:
  assumes "statOpenSucceed w" "fileObj f = Some h" "duration f \<noteq> 0"
  shows "\<exists>f1 w1. splitFileByTime f t w = Done f1 w1"
proof (cases "splitMode f = SplitBaseOnTime \<and> checkTime f t")
  case False
  then show ?thesis by (simp add: splitFileByTime_idle)
next
  case True
  from splitFile_succeeds [OF assms(1), of f h SplitBaseOnTime] obtain n name where
    sp: "splitFile f (fileObj f) SplitBaseOnTime w =
           (Inr n, withCalls w (rotationCalls f (Some h) SplitBaseOnTime w name))"
    using assms(2) by auto
  from True have due: "splitMode f = SplitBaseOnTime" "checkTime f t" by simp_all
  from splitFileByTime_due [OF due sp] assms(3) show ?thesis by simp
qed

subsection \<open>Writes and the inner loop\<close>

lemma writeIntoFile_no_rotation:
  "\<not> (splitMode f = SplitBaseOnTime \<and> checkTime f (parseLogTime f m w)) \<Longrightarrow>
   writeIntoFile f m w = Done f (emit (Fprint (fileObj f) (logInfo m)) w)"
  by (auto simp: writeIntoFile_def splitFileByTime_def Let_def)

lemma writeIntoFile_eq:
  "writeIntoFile f m w =
     (case splitFileByTime f (parseLogTime f m w) w of
        Aborted a w1 \<Rightarrow> Aborted a w1
      | Done f1 w1 \<Rightarrow> Done f1 (withCalls w1 [Fprint (fileObj f1) (logInfo m)]))"
  by (simp add: writeIntoFile_def Let_def emit_withCalls split: outcome.splits)

lemma writeIntoFile_Done:
  assumes "writeIntoFile f m w = Done f1 w1"
  shows "\<exists>pre. w1 = withCalls w (pre @ [Fprint (fileObj f1) (logInfo m)])
           \<and> list_all (\<lambda>e. \<not> isPrintf e) pre \<and> list_all (\<lambda>e. \<not> isWrite e) pre
           \<and> splitMode f1 = splitMode f \<and> duration f1 = duration f
           \<and> logChan f1 = logChan f \<and> closeChan f1 = closeChan f
           \<and> (fileObj f \<noteq> None \<longrightarrow> fileObj f1 \<noteq> None)"
proof -
  from assms obtain w0 where sbt: "splitFileByTime f (parseLogTime f m w) w = Done f1 w0"
    and w1: "w1 = withCalls w0 [Fprint (fileObj f1) (logInfo m)]"
    by (auto simp: writeIntoFile_eq split: outcome.splits)
  from splitFileByTime_Done [OF sbt] show ?thesis
  proof
    assume "f1 = f \<and> w0 = w"
    then have "w1 = withCalls w ([] @ [Fprint (fileObj f1) (logInfo m)])" by (simp add: w1)
    with \<open>f1 = f \<and> w0 = w\<close> show ?thesis by (intro exI [of _ "[]"]) simp
  next
    assume "\<exists>n name. f1 = f\<lparr>startTime := parseLogTime f m w, fileObj := Some n\<rparr>
             \<and> w0 = withCalls w (rotationCalls f (fileObj f) SplitBaseOnTime w name)"
    then obtain n name where f1: "f1 = f\<lparr>startTime := parseLogTime f m w, fileObj := Some n\<rparr>"
      and w0: "w0 = withCalls w (rotationCalls f (fileObj f) SplitBaseOnTime w name)" by blast
    show ?thesis
      by (intro exI [of _ "rotationCalls f (fileObj f) SplitBaseOnTime w name"])
         (simp add: w1 w0 f1)
  qed
qed

lemma writeIntoFile_Aborted:
  assumes "writeIntoFile f m w = Aborted a w1"
  shows "splitMode f = SplitBaseOnTime
       \<and> (duration f = 0 \<or> rotationFailed a w1)"
proof -
  from assms have "splitFileByTime f (parseLogTime f m w) w = Aborted a w1"
    by (auto simp: writeIntoFile_eq split: outcome.splits)
  then show ?thesis by (rule splitFileByTime_Aborted)
qed

lemma writeIntoFile_succeeds:
  assumes "statOpenSucceed w" "fileObj f = Some h" "duration f \<noteq> 0"
  shows "\<exists>f1 w1. writeIntoFile f m w = Done f1 w1"
proof -
  from splitFileByTime_succeeds [OF assms] obtain f1 w0 where
    "splitFileByTime f (parseLogTime f m w) w = Done f1 w0" by blast
  then show ?thesis by (simp add: writeIntoFile_eq)
qed

lemma drainLoop_not_by_time:
  "splitMode f \<noteq> SplitBaseOnTime \<Longrightarrow>
   drainLoop f ms w = Done f (withCalls w (map (\<lambda>m. Fprint (fileObj f) (logInfo m)) ms))"
proof (induction ms arbitrary: w)
  case Nil
  show ?case by simp
next
  case (Cons m ms)
  from Cons.prems have "writeIntoFile f m w = Done f (withCalls w [Fprint (fileObj f) (logInfo m)])"
    by (simp add: writeIntoFile_no_rotation emit_withCalls)
  then show ?case using Cons.IH [OF Cons.prems] by simp
qed

lemma drainLoop_Aborted:
  "drainLoop f ms w = Aborted a w1 \<Longrightarrow>
   splitMode f = SplitBaseOnTime \<and> (duration f = 0 \<or> rotationFailed a w1)"
proof (induction ms arbitrary: f w)
  case Nil
  then show ?case by simp
next
  case (Cons m ms)
  show ?case
  proof (cases "writeIntoFile f m w")
    case (Aborted a' w')
    with Cons.prems have "a' = a" "w' = w1" by simp_all
    with Aborted writeIntoFile_Aborted show ?thesis by blast
  next
    case (Done f' w')
    with Cons.prems have "drainLoop f' ms w' = Aborted a w1" by simp
    from Cons.IH [OF this] writeIntoFile_Done [OF Done] show ?thesis by auto
  qed
qed

lemma drainLoop_succeeds:
  "statOpenSucceed w \<Longrightarrow> fileObj f \<noteq> None \<Longrightarrow> duration f \<noteq> 0 \<Longrightarrow>
   \<exists>f1 evs. drainLoop f ms w = Done f1 (withCalls w evs) \<and> list_all (\<lambda>e. \<not> isPrintf e) evs"
proof (induction ms arbitrary: f w)
  case Nil
  have "drainLoop f [] w = Done f (withCalls w []) \<and> list_all (\<lambda>e. \<not> isPrintf e) []" by simp
  then show ?case by blast
next
  case (Cons m ms)
  from Cons.prems(2) obtain h where h: "fileObj f = Some h" by auto
  from writeIntoFile_succeeds [OF Cons.prems(1) h Cons.prems(3)] obtain f' w' where
    wr: "writeIntoFile f m w = Done f' w'" by blast
  from writeIntoFile_Done [OF wr] obtain pre where
    w': "w' = withCalls w (pre @ [Fprint (fileObj f') (logInfo m)])"
    and pre: "list_all (\<lambda>e. \<not> isPrintf e) pre"
    and d: "duration f' = duration f" and fo: "fileObj f \<noteq> None \<longrightarrow> fileObj f' \<noteq> None"
    by blast
  have 1: "statOpenSucceed w'" using Cons.prems(1) by (simp add: w')
  have 2: "fileObj f' \<noteq> None" using fo Cons.prems(2) by simp
  have 3: "duration f' \<noteq> 0" using d Cons.prems(3) by simp
  from Cons.IH [OF 1 2 3] obtain f1 evs where
    dl: "drainLoop f' ms w' = Done f1 (withCalls w' evs)" and evs: "list_all (\<lambda>e. \<not> isPrintf e) evs"
    by blast
  have "drainLoop f (m # ms) w =
          Done f1 (withCalls w ((pre @ [Fprint (fileObj f') (logInfo m)]) @ evs))"
    using wr dl by (simp add: w')
  moreover have "list_all (\<lambda>e. \<not> isPrintf e) ((pre @ [Fprint (fileObj f') (logInfo m)]) @ evs)"
    using pre evs by simp
  ultimately show ?case by blast
qed

subsection \<open>One iteration of the worker\<close>

lemma checkSize_eq:
  "checkSize f (fileObj f) w =
     (sizeReached f w,
      withCalls w (Stat (fileObj f) #
        (case fst (File_Stat (fileObj f) w) of
           Inl err \<Rightarrow> [Printf (''get file info failed, err:'' @ err @ [CHR 0x0A])]
         | Inr p \<Rightarrow> [])))"
proof (cases "fst (File_Stat (fileObj f) w)")
  case (Inl err)
  from File_Stat_eq [OF Inl] show ?thesis
    by (simp add: checkSize_def sizeReached_def fmt_Printf_def emit_withCalls)
next
  case (Inr p)
  obtain name sz where p: "p = (name, sz)" by (cases p)
  from File_Stat_eq [OF Inr] show ?thesis
    by (simp add: checkSize_def sizeReached_def p)
qed

lemma rotateBySize_other:
  "splitMode f \<noteq> SplitBaseOnSize \<Longrightarrow> rotateBySize f w = Done f w"
  by (simp add: rotateBySize_def)

lemma rotateBySize_below:
  assumes "splitMode f = SplitBaseOnSize" "\<not> sizeReached f w"
  shows "rotateBySize f w =
           Done f (withCalls w (Stat (fileObj f) #
             (case fst (File_Stat (fileObj f) w) of
                Inl err \<Rightarrow> [Printf (''get file info failed, err:'' @ err @ [CHR 0x0A])]
              | Inr p \<Rightarrow> [])))"
  using assms by (simp add: rotateBySize_def checkSize_eq)

lemma rotateBySize_reached:
  assumes "splitMode f = SplitBaseOnSize" "sizeReached f w"
    and "splitFile f (fileObj f) SplitBaseOnSize (withCalls w [Stat (fileObj f)]) = (r, w2)"
  shows "rotateBySize f w =
           (case r of
              Inl err \<Rightarrow> Aborted (Panic err) w2
            | Inr n \<Rightarrow> Done (f\<lparr>fileObj := Some n\<rparr>) w2)"
proof -
  from assms(2) have "\<exists>p. fst (File_Stat (fileObj f) w) = Inr p"
    by (auto simp: sizeReached_def split: sum.splits)
  then obtain p where p: "fst (File_Stat (fileObj f) w) = Inr p" by blast
  show ?thesis
    using assms by (simp add: rotateBySize_def checkSize_eq p split: sum.splits)
qed

lemma rotateBySize_size_mode:
  assumes "splitMode f = SplitBaseOnSize"
  shows "rotateBySize f w =
     (if sizeReached f w then
        (case fst (File_Stat (fileObj f) (withCalls w [Stat (fileObj f)])) of
           Inl e \<Rightarrow>
             Aborted (Panic e)
               (withCalls w [Stat (fileObj f), Stat (fileObj f),
                  Printf (''get file info failed, err:'' @ e @ [CHR 0x0A])])
         | Inr (name, sz) \<Rightarrow>
             (case os_open w (trace w @ Stat (fileObj f) #
                       butlast (rotationCalls f (fileObj f) SplitBaseOnSize w name))
                     (path_Join [f_filePath f, name]) of
                Inl err \<Rightarrow>
                  Aborted (Panic err)
                    (withCalls w (Stat (fileObj f) #
                       rotationCalls f (fileObj f) SplitBaseOnSize w name @
                       [Printf (''open new log file failed, err:'' @ err @ [CHR 0x0A])]))
              | Inr h \<Rightarrow>
                  Done (f\<lparr>fileObj := Some h\<rparr>)
                    (withCalls w (Stat (fileObj f) #
                       rotationCalls f (fileObj f) SplitBaseOnSize w name))))
      else Done f (withCalls w (Stat (fileObj f) # statReport f w)))"
proof (cases "sizeReached f w")
  case False
  with rotateBySize_below [OF assms False] show ?thesis by (simp add: statReport_def)
next
  case True
  define w1 where "w1 = withCalls w [Stat (fileObj f)]"
  show ?thesis
  proof (cases "fst (File_Stat (fileObj f) w1)")
    case (Inl e)
    from splitFile_stat_failed [OF Inl, of f SplitBaseOnSize]
    have sp: "splitFile f (fileObj f) SplitBaseOnSize (withCalls w [Stat (fileObj f)]) =
            (Inl e, withCalls w1 [Stat (fileObj f),
                Printf (''get file info failed, err:'' @ e @ [CHR 0x0A])])"
      by (simp only: w1_def)
    from rotateBySize_reached [OF assms True sp] Inl True show ?thesis
      by (simp add: w1_def)
  next
    case (Inr p)
    obtain name sz where p: "p = (name, sz)" by (cases p)
    note ok = splitFile_stat_ok [OF Inr [unfolded p], of f SplitBaseOnSize]
    let ?o = "os_open w (trace w @ Stat (fileObj f) #
                       butlast (rotationCalls f (fileObj f) SplitBaseOnSize w name))
                     (path_Join [f_filePath f, name])"
    have o: "os_open w1 (trace w1 @ butlast (rotationCalls f (fileObj f) SplitBaseOnSize w1 name))
                   (path_Join [f_filePath f, name]) = ?o"
      by (simp add: w1_def rotationCalls_withCalls)
    show ?thesis
    proof (cases ?o)
      case (Inl err)
      from ok [unfolded o Inl sum.case]
      have sp: "splitFile f (fileObj f) SplitBaseOnSize (withCalls w [Stat (fileObj f)]) =
          (Inl err, withCalls w1 (rotationCalls f (fileObj f) SplitBaseOnSize w1 name @
                   [Printf (''open new log file failed, err:'' @ err @ [CHR 0x0A])]))"
        by (simp only: w1_def)
      from rotateBySize_reached [OF assms True sp] Inr p Inl True show ?thesis
        by (simp add: w1_def rotationCalls_withCalls)
    next
      case (Inr h)
      from ok [unfolded o Inr sum.case]
      have sp: "splitFile f (fileObj f) SplitBaseOnSize (withCalls w [Stat (fileObj f)]) =
          (Inr h, withCalls w1 (rotationCalls f (fileObj f) SplitBaseOnSize w1 name))"
        by (simp only: w1_def)
      from rotateBySize_reached [OF assms True sp] \<open>fst (File_Stat (fileObj f) w1) = Inr p\<close> p Inr True
      show ?thesis
        by (simp add: w1_def rotationCalls_withCalls)
    qed
  qed
qed

lemma rotateBySize_Aborted:
  assumes "rotateBySize f w = Aborted a w1"
  shows "splitMode f = SplitBaseOnSize \<and> sizeReached f w \<and> rotationFailed a w1"
proof -
  have mode: "splitMode f = SplitBaseOnSize"
    using assms by (cases "splitMode f = SplitBaseOnSize") (simp_all add: rotateBySize_other)
  have reached: "sizeReached f w"
    using assms rotateBySize_below [OF mode] by (cases "sizeReached f w") simp_all
  obtain r w2 where sp:
    "splitFile f (fileObj f) SplitBaseOnSize (withCalls w [Stat (fileObj f)]) = (r, w2)"
    by (cases "splitFile f (fileObj f) SplitBaseOnSize (withCalls w [Stat (fileObj f)])")
  note eq = rotateBySize_reached [OF mode reached sp]
  show ?thesis
  proof (cases r)
    case (Inl err)
    from splitFile_failed [OF sp [unfolded Inl]] eq Inl assms mode reached
    show ?thesis by simp
  next
    case (Inr n)
    with eq assms show ?thesis by simp
  qed
qed

lemma rotateBySize_succeeds:
  assumes "statOpenSucceed w" "fileObj f = Some h"
  shows "\<exists>f1 evs. rotateBySize f w = Done f1 (withCalls w evs)
           \<and> list_all (\<lambda>e. \<not> isPrintf e) evs
           \<and> fileObj f1 \<noteq> None \<and> duration f1 = duration f \<and> splitMode f1 = splitMode f"
proof (cases "splitMode f = SplitBaseOnSize")
  case False
  then have "rotateBySize f w = Done f (withCalls w [])" by (simp add: rotateBySize_other)
  then show ?thesis using assms(2) by (intro exI [of _ f] exI [of _ "[]"]) simp
next
  case mode: True
  from assms(1) obtain name sz where "os_stat w (trace w) h = Inr (name, sz)"
    unfolding statOpenSucceed_def by blast
  then have st: "fst (File_Stat (fileObj f) w) = Inr (name, sz)"
    by (simp add: File_Stat_def assms(2))
  show ?thesis
  proof (cases "sizeReached f w")
    case False
    from rotateBySize_below [OF mode False]
    have "rotateBySize f w = Done f (withCalls w [Stat (fileObj f)])" by (simp add: st)
    then show ?thesis using assms(2) by (intro exI [of _ f] exI [of _ "[Stat (fileObj f)]"]) simp
  next
    case True
    have ok: "statOpenSucceed (withCalls w [Stat (fileObj f)])" using assms(1) by simp
    from splitFile_succeeds [OF ok, of f h SplitBaseOnSize] obtain n nm where
      sp: "splitFile f (fileObj f) SplitBaseOnSize (withCalls w [Stat (fileObj f)]) =
             (Inr n, withCalls (withCalls w [Stat (fileObj f)])
                (rotationCalls f (Some h) SplitBaseOnSize (withCalls w [Stat (fileObj f)]) nm))"
      using assms(2) by auto
    from rotateBySize_reached [OF mode True sp]
    have "rotateBySize f w = Done (f\<lparr>fileObj := Some n\<rparr>)
            (withCalls w ([Stat (fileObj f)] @
               rotationCalls f (Some h) SplitBaseOnSize (withCalls w [Stat (fileObj f)]) nm))"
      by simp
    then show ?thesis
      by (intro exI [of _ "f\<lparr>fileObj := Some n\<rparr>"]
            exI [of _ "[Stat (fileObj f)] @
               rotationCalls f (Some h) SplitBaseOnSize (withCalls w [Stat (fileObj f)]) nm"])
         simp
  qed
qed

lemma selectStep_close:
  assumes "closeChan f \<and> (buf (logChan f) = [] \<or> pick_close sch)"
  shows "selectStep f w sch =
           (case drainLoop (f\<lparr>closeChan := False,
                     logChan := (logChan f)\<lparr>buf := drop (before_timer sch) (buf (logChan f))\<rparr>\<rparr>)
                   (take (before_timer sch) (buf (logChan f))) w of
              Aborted a w1 \<Rightarrow> Aborted a w1
            | Done f1 w1 \<Rightarrow> Done (Return, f1) w1)"
  unfolding selectStep_def Let_def by (subst if_P [OF assms]) (rule refl)

lemma selectStep_log:
  assumes "\<not> (closeChan f \<and> (buf (logChan f) = [] \<or> pick_close sch))"
    and "buf (logChan f) = m # rest"
  shows "selectStep f w sch =
           (case writeIntoFile (f\<lparr>logChan := (logChan f)\<lparr>buf := rest\<rparr>\<rparr>) m w of
              Aborted a w1 \<Rightarrow> Aborted a w1
            | Done f1 w1 \<Rightarrow> Done (Continue, f1) w1)"
  unfolding selectStep_def Let_def
  by (subst if_not_P [OF assms(1)]) (simp only: assms(2) list.case)

lemma selectStep_idle:
  assumes "\<not> (closeChan f \<and> (buf (logChan f) = [] \<or> pick_close sch))"
    and "buf (logChan f) = []"
  shows "selectStep f w sch = Done (Continue, f) (withCalls w [Sleep (Millisecond * 500)])"
  unfolding selectStep_def Let_def
  by (subst if_not_P [OF assms(1)]) (simp only: assms(2) list.case time_Sleep_def emit_withCalls)

lemma selectStep_not_by_time:
  assumes "splitMode f \<noteq> SplitBaseOnTime"
  shows "\<exists>c f1 rest. selectStep f w sch = Done (c, f1) (withCalls w rest)
           \<and> list_all (\<lambda>e. isWrite e \<or> isSleep e) rest \<and> fileObj f1 = fileObj f"
proof (cases "closeChan f \<and> (buf (logChan f) = [] \<or> pick_close sch)")
  case True
  let ?q = "buf (logChan f)"
  let ?f0 = "f\<lparr>closeChan := False, logChan := (logChan f)\<lparr>buf := drop (before_timer sch) ?q\<rparr>\<rparr>"
  let ?rest = "map (\<lambda>m. Fprint (fileObj ?f0) (logInfo m)) (take (before_timer sch) ?q)"
  have m0: "splitMode ?f0 \<noteq> SplitBaseOnTime" using assms by simp
  have "selectStep f w sch = Done (Return, ?f0) (withCalls w ?rest)"
    by (simp add: selectStep_close [OF True] drainLoop_not_by_time [OF m0])
  moreover have "list_all (\<lambda>e. isWrite e \<or> isSleep e) ?rest"
    by (simp add: list_all_iff)
  ultimately show ?thesis by (intro exI [of _ Return] exI [of _ ?f0] exI [of _ ?rest]) simp
next
  case False
  show ?thesis
  proof (cases "buf (logChan f)")
    case Nil
    have "selectStep f w sch = Done (Continue, f) (withCalls w [Sleep (Millisecond * 500)])"
      by (rule selectStep_idle [OF False Nil])
    then show ?thesis
      by (intro exI [of _ Continue] exI [of _ f] exI [of _ "[Sleep (Millisecond * 500)]"]) simp
  next
    case (Cons m rest)
    let ?f0 = "f\<lparr>logChan := (logChan f)\<lparr>buf := rest\<rparr>\<rparr>"
    have m0: "\<not> (splitMode ?f0 = SplitBaseOnTime \<and> checkTime ?f0 (parseLogTime ?f0 m w))"
      using assms by simp
    have "selectStep f w sch = Done (Continue, ?f0) (withCalls w [Fprint (fileObj ?f0) (logInfo m)])"
      by (simp add: selectStep_log [OF False Cons] writeIntoFile_no_rotation [OF m0] emit_withCalls)
    then show ?thesis
      by (intro exI [of _ Continue] exI [of _ ?f0] exI [of _ "[Fprint (fileObj ?f0) (logInfo m)]"])
         simp
  qed
qed

lemma selectStep_not_by_time_calls:
  assumes "splitMode f \<noteq> SplitBaseOnTime"
  shows "\<exists>c f1 n rest. selectStep f w sch = Done (c, f1) (withCalls w rest)
           \<and> fileObj f1 = fileObj f
           \<and> buf (logChan f1) = drop n (buf (logChan f))
           \<and> (rest = recordWrites (fileObj f) (take n (buf (logChan f)))
                \<or> rest = [Sleep (Millisecond * 500)] \<and> buf (logChan f) = [])"
proof (cases "closeChan f \<and> (buf (logChan f) = [] \<or> pick_close sch)")
  case True
  let ?q = "buf (logChan f)"
  let ?f0 = "f\<lparr>closeChan := False, logChan := (logChan f)\<lparr>buf := drop (before_timer sch) ?q\<rparr>\<rparr>"
  let ?rest = "recordWrites (fileObj f) (take (before_timer sch) ?q)"
  have m0: "splitMode ?f0 \<noteq> SplitBaseOnTime" using assms by simp
  have "selectStep f w sch = Done (Return, ?f0) (withCalls w ?rest)"
    by (simp add: selectStep_close [OF True] drainLoop_not_by_time [OF m0] recordWrites_def)
  then show ?thesis
    by (intro exI [of _ Return] exI [of _ ?f0] exI [of _ "before_timer sch"] exI [of _ ?rest]) simp
next
  case False
  show ?thesis
  proof (cases "buf (logChan f)")
    case Nil
    have "selectStep f w sch = Done (Continue, f) (withCalls w [Sleep (Millisecond * 500)])"
      by (rule selectStep_idle [OF False Nil])
    then show ?thesis using Nil
      by (intro exI [of _ Continue] exI [of _ f] exI [of _ 0]
            exI [of _ "[Sleep (Millisecond * 500)]"]) simp
  next
    case (Cons m ms)
    let ?f0 = "f\<lparr>logChan := (logChan f)\<lparr>buf := ms\<rparr>\<rparr>"
    have m0: "\<not> (splitMode ?f0 = SplitBaseOnTime \<and> checkTime ?f0 (parseLogTime ?f0 m w))"
      using assms by simp
    have "selectStep f w sch = Done (Continue, ?f0) (withCalls w [Fprint (fileObj ?f0) (logInfo m)])"
      by (simp add: selectStep_log [OF False Cons] writeIntoFile_no_rotation [OF m0] emit_withCalls)
    then show ?thesis using Cons
      by (intro exI [of _ Continue] exI [of _ ?f0] exI [of _ 1]
            exI [of _ "[Fprint (fileObj ?f0) (logInfo m)]"]) (simp add: recordWrites_def)
  qed
qed

lemma selectStep_Aborted:
  assumes "selectStep f w sch = Aborted a w1"
  shows "splitMode f = SplitBaseOnTime \<and> (duration f = 0 \<or> rotationFailed a w1)"
proof (cases "closeChan f \<and> (buf (logChan f) = [] \<or> pick_close sch)")
  case True
  let ?q = "buf (logChan f)"
  let ?f0 = "f\<lparr>closeChan := False, logChan := (logChan f)\<lparr>buf := drop (before_timer sch) ?q\<rparr>\<rparr>"
  from assms have "drainLoop ?f0 (take (before_timer sch) ?q) w = Aborted a w1"
    by (simp add: selectStep_close [OF True] split: outcome.splits)
  from drainLoop_Aborted [OF this] show ?thesis by simp
next
  case False
  show ?thesis
  proof (cases "buf (logChan f)")
    case Nil
    with assms selectStep_idle [OF False] show ?thesis by simp
  next
    case (Cons m rest)
    let ?f0 = "f\<lparr>logChan := (logChan f)\<lparr>buf := rest\<rparr>\<rparr>"
    from assms have "writeIntoFile ?f0 m w = Aborted a w1"
      by (simp add: selectStep_log [OF False Cons] split: outcome.splits)
    from writeIntoFile_Aborted [OF this] show ?thesis by simp
  qed
qed

lemma selectStep_succeeds:
  assumes "statOpenSucceed w" "fileObj f \<noteq> None" "duration f \<noteq> 0"
  shows "\<exists>c f1 evs. selectStep f w sch = Done (c, f1) (withCalls w evs)
           \<and> list_all (\<lambda>e. \<not> isPrintf e) evs"
proof (cases "closeChan f \<and> (buf (logChan f) = [] \<or> pick_close sch)")
  case True
  let ?q = "buf (logChan f)"
  let ?f0 = "f\<lparr>closeChan := False, logChan := (logChan f)\<lparr>buf := drop (before_timer sch) ?q\<rparr>\<rparr>"
  have 2: "fileObj ?f0 \<noteq> None" and 3: "duration ?f0 \<noteq> 0" using assms(2,3) by simp_all
  from drainLoop_succeeds [OF assms(1) 2 3, of "take (before_timer sch) ?q"] obtain f1 evs where
    "drainLoop ?f0 (take (before_timer sch) ?q) w = Done f1 (withCalls w evs)"
    "list_all (\<lambda>e. \<not> isPrintf e) evs" by blast
  then have "selectStep f w sch = Done (Return, f1) (withCalls w evs)
           \<and> list_all (\<lambda>e. \<not> isPrintf e) evs"
    by (simp add: selectStep_close [OF True])
  then show ?thesis by blast
next
  case False
  show ?thesis
  proof (cases "buf (logChan f)")
    case Nil
    have "selectStep f w sch = Done (Continue, f) (withCalls w [Sleep (Millisecond * 500)])"
      by (rule selectStep_idle [OF False Nil])
    then show ?thesis
      by (intro exI [of _ Continue] exI [of _ f] exI [of _ "[Sleep (Millisecond * 500)]"]) simp
  next
    case (Cons m rest)
    let ?f0 = "f\<lparr>logChan := (logChan f)\<lparr>buf := rest\<rparr>\<rparr>"
    from assms(2) obtain h where h: "fileObj ?f0 = Some h" by auto
    have 3: "duration ?f0 \<noteq> 0" using assms(3) by simp
    from writeIntoFile_succeeds [OF assms(1) h 3, of m] obtain f1 w1 where
      wr: "writeIntoFile ?f0 m w = Done f1 w1" by blast
    from writeIntoFile_Done [OF wr] obtain pre where
      "w1 = withCalls w (pre @ [Fprint (fileObj f1) (logInfo m)])"
      "list_all (\<lambda>e. \<not> isPrintf e) pre" by blast
    then have "selectStep f w sch = Done (Continue, f1) (withCalls w (pre @ [Fprint (fileObj f1) (logInfo m)]))
         \<and> list_all (\<lambda>e. \<not> isPrintf e) (pre @ [Fprint (fileObj f1) (logInfo m)])"
      using wr by (simp add: selectStep_log [OF False Cons])
    then show ?thesis by blast
  qed
qed

lemma iter_eq:
  "writeLogBackground_iter f w sch =
     (case rotateBySize f w of
        Aborted a w1 \<Rightarrow> Aborted a w1
      | Done f1 w1 \<Rightarrow> selectStep f1 w1 sch)"
  by (simp add: writeLogBackground_iter_def)

lemma iter_succeeds:
  assumes "statOpenSucceed w" "fileObj f \<noteq> None" "duration f \<noteq> 0"
  shows "\<exists>c f' evs. writeLogBackground_iter f w sch = Done (c, f') (withCalls w evs)
           \<and> list_all (\<lambda>e. \<not> isPrintf e) evs"
proof -
  from assms(2) obtain h where h: "fileObj f = Some h" by auto
  from rotateBySize_succeeds [OF assms(1) h] obtain f1 evs1 where
    r: "rotateBySize f w = Done f1 (withCalls w evs1)"
    and e1: "list_all (\<lambda>e. \<not> isPrintf e) evs1"
    and fo: "fileObj f1 \<noteq> None" and d: "duration f1 = duration f"
    by blast
  define w1 where "w1 = withCalls w evs1"
  have ok: "statOpenSucceed w1" using assms(1) by (simp add: w1_def)
  have d1: "duration f1 \<noteq> 0" using d assms(3) by simp
  from selectStep_succeeds [OF ok fo d1, of sch] obtain c f2 evs2 where
    s: "selectStep f1 w1 sch = Done (c, f2) (withCalls w1 evs2)"
    and e2: "list_all (\<lambda>e. \<not> isPrintf e) evs2"
    by blast
  have "writeLogBackground_iter f w sch = Done (c, f2) (withCalls w1 evs2)"
    by (simp add: iter_eq r [folded w1_def] s)
  then have "writeLogBackground_iter f w sch = Done (c, f2) (withCalls w (evs1 @ evs2))"
    by (simp add: w1_def)
  moreover have "list_all (\<lambda>e. \<not> isPrintf e) (evs1 @ evs2)" using e1 e2 by simp
  ultimately show ?thesis by blast
qed

lemma iter_Aborted:
  assumes "writeLogBackground_iter f w sch = Aborted a w1" "duration f \<noteq> 0"
  shows "rotationFailed a w1"
proof (cases "rotateBySize f w")
  case (Aborted a' w')
  with assms(1) have "a' = a" "w' = w1" by (simp_all add: iter_eq)
  with rotateBySize_Aborted [OF Aborted] show ?thesis by simp
next
  case (Done f1 w')
  with assms(1) have s: "selectStep f1 w' sch = Aborted a w1" by (simp add: iter_eq)
  have "duration f1 = duration f"
  proof (cases "splitMode f = SplitBaseOnSize")
    case True
    obtain r w2 where sp:
      "splitFile f (fileObj f) SplitBaseOnSize (withCalls w [Stat (fileObj f)]) = (r, w2)"
      by (cases "splitFile f (fileObj f) SplitBaseOnSize (withCalls w [Stat (fileObj f)])")
    show ?thesis
    proof (cases "sizeReached f w")
      case False
      from rotateBySize_below [OF True False] Done show ?thesis by simp
    next
      case reached: True
      from rotateBySize_reached [OF True reached sp] Done show ?thesis
        by (cases r) auto
    qed
  next
    case False
    with Done show ?thesis by (simp add: rotateBySize_other)
  qed
  with selectStep_Aborted [OF s] assms(2) show ?thesis by simp
qed

lemma iter_stat_failed:
  assumes "splitMode f = SplitBaseOnSize" "fst (File_Stat (fileObj f) w) = Inl err"
  shows "\<exists>c f' rest. writeLogBackground_iter f w sch =
            Done (c, f') (withCalls w (Stat (fileObj f)
               # Printf (''get file info failed, err:'' @ err @ [CHR 0x0A]) # rest))
           \<and> fileObj f' = fileObj f \<and> list_all (\<lambda>e. isWrite e \<or> isSleep e) rest"
proof -
  have nr: "\<not> sizeReached f w" using assms(2) by (simp add: sizeReached_def)
  define w1 where
    "w1 = withCalls w [Stat (fileObj f), Printf (''get file info failed, err:'' @ err @ [CHR 0x0A])]"
  from rotateBySize_below [OF assms(1) nr]
  have r: "rotateBySize f w = Done f w1" by (simp add: assms(2) w1_def)
  have "splitMode f \<noteq> SplitBaseOnTime" using assms(1) by (simp add: Split_defs)
  from selectStep_not_by_time [OF this, of w1 sch] obtain c f2 rest where
    s: "selectStep f w1 sch = Done (c, f2) (withCalls w1 rest)"
    and rest: "list_all (\<lambda>e. isWrite e \<or> isSleep e) rest" and fo: "fileObj f2 = fileObj f"
    by blast
  have "writeLogBackground_iter f w sch = Done (c, f2) (withCalls w1 rest)"
    by (simp add: iter_eq r s)
  moreover have "withCalls w1 rest = withCalls w (Stat (fileObj f)
               # Printf (''get file info failed, err:'' @ err @ [CHR 0x0A]) # rest)"
    by (simp add: w1_def)
  ultimately have "writeLogBackground_iter f w sch =
            Done (c, f2) (withCalls w (Stat (fileObj f)
               # Printf (''get file info failed, err:'' @ err @ [CHR 0x0A]) # rest))"
    by simp
  with rest fo show ?thesis by blast
qed

subsection \<open>The examples, evaluated\<close>


lemma logInfo_ex:
  "logInfo ex_logMsg = ''[2022-03-25 20:24:24] [DEBUG] [main:main.go:10] hello'' @ [CHR 0x0A]"
  by (simp add: logInfo_def ex_logMsg_def l2S_def itoa_10)

lemma ex_rotation_step:
  "writeIntoFile ex_daily ex_logMsg2 ex_started = Done ex_late ex_rotated"
proof -
  have t: "parseLogTime ex_daily ex_logMsg2 ex_started = T2"
    by (simp add: parseLogTime_def ex_daily_def ex_fileLogger_def ex_logMsg2_def ex_started_def
        ex_world_def ex_Parse_def)
  have chk: "checkTime ex_daily T2"
    by (simp add: checkTime_def Time_Sub_def ex_daily_def ex_fileLogger_def T2_def
        defaultDuration_def Duration_defs minDuration_def maxDuration_def)
  have sp: "splitFile ex_daily (Some 1) SplitBaseOnTime ex_started =
        (Inr 6, ex_started\<lparr>trace := trace ex_started @
           [Stat (Some 1), CloseFile (Some 1),
            Rename ''log/ALog.log'' ''log/ALog.log.20220325.bak'',
            OpenFile ''log/ALog.log'' 420]\<rparr>)"
    by (simp add: splitFile_def Let_def File_Stat_def os_OpenFile_def emit_def call_def
        ex_daily_def ex_fileLogger_def ex_started_def ex_world_def ex_Format_def Split_defs
        go_rem_def defaultDuration_def Duration_defs default_defs path_Join_default
        perm_0644_def T1_def T2_def)
  have li: "logInfo ex_logMsg2 =
     ''[2022-03-26 00:00:01] [INFO] [main:main.go:11] next day'' @ [CHR 0x0A]"
    by (simp add: logInfo_def ex_logMsg2_def l2S_def itoa_11 Level_defs)
  have sbt: "splitFileByTime ex_daily T2 ex_started =
        Done ex_late (ex_started\<lparr>trace := trace ex_started @
           [Stat (Some 1), CloseFile (Some 1),
            Rename ''log/ALog.log'' ''log/ALog.log.20220325.bak'',
            OpenFile ''log/ALog.log'' 420]\<rparr>)"
    using chk sp
    by (simp add: splitFileByTime_def Let_def ex_daily_def ex_late_def ex_fileLogger_def
        defaultDuration_def Duration_defs)
  show ?thesis
    by (simp add: writeIntoFile_def Let_def t sbt li ex_rotated_def ex_late_def emit_def)
qed

lemma ex_iteration_full:
  "writeLogBackground_iter ex_sized ex_full ex_sched =
     Done (Continue, ex_sized\<lparr>fileObj := Some 7, logChan := \<lparr>buf = [], cap = 50000\<rparr>\<rparr>)
       (withCalls ex_full
          [Stat (Some 1), Stat (Some 1), CloseFile (Some 1),
           Rename ''log/ALog.log'' ''log/ALog.log.20220325202424.bak'',
           OpenFile ''log/ALog.log'' 420,
           Fprint (Some 7) (''[2022-03-25 20:24:24] [DEBUG] [main:main.go:10] hello'' @ [CHR 0x0A])])"
  by (simp add: step_defs Let_def os_defs withCalls_def ex_defs default_defs Split_defs
      path_Join_default perm_0644_def logInfo_def l2S_def itoa_10 Level_defs)

lemma ex_iteration_readonly:
  "writeLogBackground_iter ex_sized ex_readonly ex_sched =
     Aborted (Panic ''permission denied'')
       (withCalls ex_readonly
          [Stat (Some 1), Stat (Some 1), CloseFile (Some 1),
           Rename ''log/ALog.log'' ''log/ALog.log.20220325202424.bak'',
           OpenFile ''log/ALog.log'' 420,
           Printf (''open new log file failed, err:permission denied'' @ [CHR 0x0A])])"
  by (simp add: step_defs Let_def os_defs withCalls_def ex_defs default_defs Split_defs
      path_Join_default perm_0644_def)

lemma ex_iteration_nospace:
  "writeLogBackground_iter ex_sized ex_nospace ex_sched =
     Done (Continue, ex_sized\<lparr>logChan := \<lparr>buf = [], cap = 50000\<rparr>\<rparr>)
       (withCalls ex_nospace
          [Stat (Some 1),
           Fprint (Some 1) (''[2022-03-25 20:24:24] [DEBUG] [main:main.go:10] hello'' @ [CHR 0x0A])])"
  by (simp add: step_defs Let_def os_defs withCalls_def ex_defs default_defs Split_defs
      logInfo_def l2S_def itoa_10 Level_defs)

lemma ex_iteration_nostat:
  "writeLogBackground_iter ex_sized ex_nostat ex_sched =
     Done (Continue, ex_sized\<lparr>logChan := \<lparr>buf = [], cap = 50000\<rparr>\<rparr>)
       (withCalls ex_nostat
          [Stat (Some 1), Printf (''get file info failed, err:bad file descriptor'' @ [CHR 0x0A]),
           Fprint (Some 1) (''[2022-03-25 20:24:24] [DEBUG] [main:main.go:10] hello'' @ [CHR 0x0A])])"
  by (simp add: step_defs Let_def os_defs withCalls_def ex_defs default_defs Split_defs
      logInfo_def l2S_def itoa_10 Level_defs)

lemma ex_write_fails:
  "fst (fmt_Fprint (Some 1) (logInfo ex_logMsg) ex_nospace) = Some ''no space left on device''"
  by (simp add: fmt_Fprint_def call_def ex_nospace_def)

lemma ex_splitFile_readonly_size:
  "splitFile ex_sized (fileObj ex_sized) SplitBaseOnSize (withCalls ex_readonly [Stat (fileObj ex_sized)]) =
     (Inl ''permission denied'',
      withCalls ex_readonly
          [Stat (Some 1), Stat (Some 1), CloseFile (Some 1),
           Rename ''log/ALog.log'' ''log/ALog.log.20220325202424.bak'',
           OpenFile ''log/ALog.log'' 420,
           Printf (''open new log file failed, err:permission denied'' @ [CHR 0x0A])])"
  by (simp add: step_defs Let_def os_defs withCalls_def ex_defs default_defs Split_defs
      path_Join_default perm_0644_def)

lemma ex_splitFile_readonly_time:
  "splitFile ex_daily (fileObj ex_daily) SplitBaseOnTime ex_readonly =
     (Inl ''permission denied'',
      withCalls ex_readonly
          [Stat (Some 1), CloseFile (Some 1),
           Rename ''log/ALog.log'' ''log/ALog.log.20220325.bak'',
           OpenFile ''log/ALog.log'' 420,
           Printf (''open new log file failed, err:permission denied'' @ [CHR 0x0A])])"
  by (simp add: step_defs Let_def os_defs withCalls_def ex_defs ex_daily_def default_defs
      Split_defs go_rem_def Duration_defs path_Join_default perm_0644_def)

section \<open>The claims\<close>

text \<open>
  C1. The claim: every line the file sink writes is
  \<^verbatim>\<open>[timestamp] [LEVEL] [file:func:line] message\<close>, the order of the console sink. The code
  of \<^verbatim>\<open>writeIntoFile\<close> passes \<^verbatim>\<open>funcName\<close> before \<^verbatim>\<open>fileName\<close>: for a \<^verbatim>\<open>Debug("hello")\<close> at
  \<^verbatim>\<open>main.go:main:10\<close> the file receives \<^verbatim>\<open>[main:main.go:10]\<close>, while the console logger
  prints \<^verbatim>\<open>[main.go:main:10]\<close> for the same call site.
\<close>

theorem C1_file_line_has_func_before_file:
  "writeIntoFile ex_fileLogger ex_logMsg ex_started =
     Done ex_fileLogger
       (emit (Fprint (Some 1)
          (''[2022-03-25 20:24:24] [DEBUG] [main:main.go:10] hello'' @ [CHR 0x0A])) ex_started)
   \<and> c_log newConsoleLogger DEBUG ''hello'' (''main.go'', ''main'', 10) ex_started =
       emit (Printf (''[2022-03-25 20:24:24] [DEBUG] [main.go:main:10] hello'' @ [CHR 0x0A]))
         ex_started"
proof -
  have mode: "splitMode ex_fileLogger \<noteq> SplitBaseOnTime"
    by (simp add: ex_fileLogger_def Split_defs)
  have "writeIntoFile ex_fileLogger ex_logMsg ex_started =
          Done ex_fileLogger (emit (Fprint (Some 1) (logInfo ex_logMsg)) ex_started)"
    using mode
    by (simp add: writeIntoFile_def splitFileByTime_def os_defs ex_fileLogger_def
        ex_started_def ex_world_def)
  moreover have
    "c_log newConsoleLogger DEBUG ''hello'' (''main.go'', ''main'', 10) ex_started =
       emit (Printf (''[2022-03-25 20:24:24] [DEBUG] [main.go:main:10] hello'' @ [CHR 0x0A]))
         ex_started"
    by (simp add: c_log_def c_enable_def newConsoleLogger_def os_defs l2S_def itoa_10
        ex_started_def ex_world_def ex_Format_def default_defs T1_def DEBUG_def)
  ultimately show ?thesis by (simp add: logInfo_ex)
qed

text \<open>
  C2. The claim: after \<^verbatim>\<open>Close\<close> on the \<^verbatim>\<open>Log\<close>, every log method is a no-op and the file
  handle is closed. \<^verbatim>\<open>Log.Close\<close> signals the worker and closes the file, but it does not
  set \<open>isClose\<close>, the flag every log method tests (only the signal handler sets it, see
  \<open>signalHandler_sets_isClose\<close>, \<open>Log_Close_keeps_isClose\<close> and \<open>closed_log_is_noop\<close>). On
  the logger of \<^verbatim>\<open>New().SetBothMode()\<close>, \<^verbatim>\<open>Close\<close> returns once the worker has received
  the signal, the file closed and the logger as it was; \<^verbatim>\<open>Debug("hello")\<close> then still
  enqueues the record and prints the line. On the logger of \<^verbatim>\<open>New()\<close>, \<^verbatim>\<open>Close\<close> does
  nothing and \<^verbatim>\<open>Debug("hello")\<close> still prints.
\<close>

theorem C2_log_after_Close_still_logs:
  "Log_Close ex_Log ex_started [ex_sched] 0 = Some (Done ex_Log ex_after_close)
   \<and> isClose ex_Log = False
   \<and> Log_Debug ex_Log ''hello'' ex_ti ex_after_close =
       (ex_Log\<lparr>FLogger := Some (ex_fileLogger\<lparr>
            logChan := \<lparr>buf = [ex_logMsg], cap = 50000\<rparr>\<rparr>)\<rparr>,
        emit (Printf (''[2022-03-25 20:24:24] [DEBUG] [main.go:main:10] hello'' @ [CHR 0x0A]))
          ex_after_close)
   \<and> Log_Close New ex_world [] 0 = Some (Done New ex_world)
   \<and> Log_Debug New ''hello'' ex_ti ex_world =
       (New, emit (Printf (''[2022-03-25 20:24:24] [DEBUG] [main.go:main:10] hello''
                            @ [CHR 0x0A])) ex_world)"
proof -
  have it: "writeLogBackground (ex_fileLogger\<lparr>closeChan := True\<rparr>) ex_started [ex_sched] =
              Done (Return, ex_fileLogger) ex_started"
    by (simp add: writeLogBackground_iter_def rotateBySize_def selectStep_def Let_def
        ex_fileLogger_def make_chan_def ex_sched_def Split_defs)
  have fl: "FLogger ex_Log = Some ex_fileLogger" by (simp add: ex_Log_def)
  have fo: "fileObj ex_fileLogger = Some 1" by (simp add: ex_fileLogger_def)
  have q: "buf (logChan ex_fileLogger) = []"
    "ex_fileLogger\<lparr>logChan := (logChan ex_fileLogger)\<lparr>buf := []\<rparr>\<rparr> = ex_fileLogger"
    by (simp_all add: ex_fileLogger_def make_chan_def)
  have fc: "f_Close ex_fileLogger ex_started [ex_sched] 0 =
              Some (Done ex_fileLogger ex_after_close)"
    unfolding f_Close_def it by (simp add: fo q ex_after_close_def)
  have up: "ex_Log\<lparr>FLogger := Some ex_fileLogger\<rparr> = ex_Log" by (simp add: ex_Log_def)
  have a: "Log_Close ex_Log ex_started [ex_sched] 0 = Some (Done ex_Log ex_after_close)"
    by (simp add: Log_Close_def fl fc up)
  have b: "isClose ex_Log = False" by (simp add: ex_Log_def)
  have fmt: "time_Format ex_after_close defaultTimeFormat (now ex_after_close) = ''2022-03-25 20:24:24''"
    by (simp add: ex_after_close_def ex_started_def ex_world_def ex_Format_def)
  have fmt0: "time_Format ex_world defaultTimeFormat (now ex_world) = ''2022-03-25 20:24:24''"
    by (simp add: ex_world_def ex_Format_def)
  have c: "Log_Debug ex_Log ''hello'' ex_ti ex_after_close =
       (ex_Log\<lparr>FLogger := Some (ex_fileLogger\<lparr>
            logChan := \<lparr>buf = [ex_logMsg], cap = 50000\<rparr>\<rparr>)\<rparr>,
        emit (Printf (''[2022-03-25 20:24:24] [DEBUG] [main.go:main:10] hello'' @ [CHR 0x0A]))
          ex_after_close)"
    by (simp add: Log_Debug_def f_Debug_def c_Debug_def f_log_def c_log_def f_enable_def
        c_enable_def try_send_def make_chan_def ex_Log_def ex_fileLogger_def
        newConsoleLogger_def defaultLevel_def ex_ti_def fmt fmt_Printf_def l2S_def itoa_10
        ex_logMsg_def defaultMaxChanSize_def)
  have d: "Log_Close New ex_world [] 0 = Some (Done New ex_world)"
    by (simp add: Log_Close_def New_def)
  have e: "Log_Debug New ''hello'' ex_ti ex_world =
       (New, emit (Printf (''[2022-03-25 20:24:24] [DEBUG] [main.go:main:10] hello''
                            @ [CHR 0x0A])) ex_world)"
    by (simp add: Log_Debug_def c_Debug_def c_log_def c_enable_def New_def
        newConsoleLogger_def defaultLevel_def ex_ti_def fmt0 fmt_Printf_def l2S_def itoa_10)
  from a b c d e show ?thesis by blast
qed

text \<open>
  C3, as amended. A write that no rotation by time precedes returns the logger it was
  given and adds nothing but the \<^verbatim>\<open>Fprint\<close> itself to the trace, whatever the world
  answers to it: a write error is discarded, reported nowhere, and the worker goes on
  with the handle it has. Whenever
  every \<^verbatim>\<open>Stat\<close> and \<^verbatim>\<open>OpenFile\<close> succeeds, an iteration of the worker returns and prints
  nothing, whatever the writes, closes and renames answer. A failing \<^verbatim>\<open>Stat\<close> in the size
  check is printed on standard output and the iteration goes on without rotating, on the
  same handle. An iteration panics only after \<^verbatim>\<open>splitFile\<close> has printed an error of its
  \<^verbatim>\<open>Stat\<close> or its \<^verbatim>\<open>OpenFile\<close>, and it does panic then, by size or by time: a failed
  rotation ends the worker and the process with it.
\<close>

theorem C3_write_errors_discarded_rotation_errors_panic:
  "(\<not> (splitMode f = SplitBaseOnTime \<and> checkTime f (parseLogTime f m w)) \<longrightarrow>
      writeIntoFile f m w = Done f (withCalls w [Fprint (fileObj f) (logInfo m)]))
   \<and> (statOpenSucceed w \<and> fileObj f \<noteq> None \<and> duration f \<noteq> 0 \<longrightarrow>
        (\<exists>c f' evs. writeLogBackground_iter f w sch = Done (c, f') (withCalls w evs)
           \<and> list_all (\<lambda>e. \<not> isPrintf e) evs))
   \<and> (splitMode f = SplitBaseOnSize \<and> fst (File_Stat (fileObj f) w) = Inl err \<longrightarrow>
        (\<exists>c f' rest. writeLogBackground_iter f w sch =
            Done (c, f') (withCalls w (Stat (fileObj f)
               # Printf (''get file info failed, err:'' @ err @ [CHR 0x0A]) # rest))
           \<and> fileObj f' = fileObj f \<and> list_all (\<lambda>e. isWrite e \<or> isSleep e) rest))
   \<and> (writeLogBackground_iter f w sch = Aborted a w1 \<and> duration f \<noteq> 0 \<longrightarrow>
        rotationFailed a w1)
   \<and> (splitMode f = SplitBaseOnSize \<and> sizeReached f w
        \<and> splitFile f (fileObj f) SplitBaseOnSize (withCalls w [Stat (fileObj f)]) = (Inl err, w2)
      \<longrightarrow> writeLogBackground_iter f w sch = Aborted (Panic err) w2)
   \<and> (splitMode f = SplitBaseOnTime \<and> checkTime f (parseLogTime f m w) \<and> duration f \<noteq> 0
        \<and> splitFile f (fileObj f) SplitBaseOnTime w = (Inl err, w3)
      \<longrightarrow> writeIntoFile f m w = Aborted (Panic err) w3)"
proof (intro conjI impI)
  assume "\<not> (splitMode f = SplitBaseOnTime \<and> checkTime f (parseLogTime f m w))"
  then show "writeIntoFile f m w = Done f (withCalls w [Fprint (fileObj f) (logInfo m)])"
    by (simp add: writeIntoFile_no_rotation emit_withCalls)
next
  assume "statOpenSucceed w \<and> fileObj f \<noteq> None \<and> duration f \<noteq> 0"
  then show "\<exists>c f' evs. writeLogBackground_iter f w sch = Done (c, f') (withCalls w evs)
           \<and> list_all (\<lambda>e. \<not> isPrintf e) evs"
    using iter_succeeds by blast
next
  assume "splitMode f = SplitBaseOnSize \<and> fst (File_Stat (fileObj f) w) = Inl err"
  then show "\<exists>c f' rest. writeLogBackground_iter f w sch =
            Done (c, f') (withCalls w (Stat (fileObj f)
               # Printf (''get file info failed, err:'' @ err @ [CHR 0x0A]) # rest))
           \<and> fileObj f' = fileObj f \<and> list_all (\<lambda>e. isWrite e \<or> isSleep e) rest"
    using iter_stat_failed by blast
next
  assume "writeLogBackground_iter f w sch = Aborted a w1 \<and> duration f \<noteq> 0"
  then show "rotationFailed a w1" using iter_Aborted by blast
next
  assume h: "splitMode f = SplitBaseOnSize \<and> sizeReached f w
        \<and> splitFile f (fileObj f) SplitBaseOnSize (withCalls w [Stat (fileObj f)]) = (Inl err, w2)"
  then have "rotateBySize f w = Aborted (Panic err) w2"
    using rotateBySize_reached [of f w "Inl err" w2] by simp
  then show "writeLogBackground_iter f w sch = Aborted (Panic err) w2"
    by (simp add: iter_eq)
next
  assume h: "splitMode f = SplitBaseOnTime \<and> checkTime f (parseLogTime f m w) \<and> duration f \<noteq> 0
        \<and> splitFile f (fileObj f) SplitBaseOnTime w = (Inl err, w3)"
  then have "splitFileByTime f (parseLogTime f m w) w = Aborted (Panic err) w3"
    using splitFileByTime_due [of f "parseLogTime f m w" w "Inl err" w3] by simp
  then show "writeIntoFile f m w = Aborted (Panic err) w3"
    by (simp add: writeIntoFile_eq)
qed

theorem C3_witness:
  "writeIntoFile ex_fileLogger ex_logMsg ex_nospace =
     Done ex_fileLogger (withCalls ex_nospace [Fprint (Some 1) (logInfo ex_logMsg)])
   \<and> fst (fmt_Fprint (Some 1) (logInfo ex_logMsg) ex_nospace) = Some ''no space left on device''
   \<and> (\<exists>c f' evs. writeLogBackground_iter ex_sized ex_nospace ex_sched =
          Done (c, f') (withCalls ex_nospace evs) \<and> list_all (\<lambda>e. \<not> isPrintf e) evs)
   \<and> (\<exists>c f' rest. writeLogBackground_iter ex_sized ex_nostat ex_sched =
          Done (c, f') (withCalls ex_nostat (Stat (Some 1)
             # Printf (''get file info failed, err:bad file descriptor'' @ [CHR 0x0A]) # rest))
          \<and> fileObj f' = Some 1 \<and> list_all (\<lambda>e. isWrite e \<or> isSleep e) rest)
   \<and> writeLogBackground_iter ex_sized ex_readonly ex_sched =
       Aborted (Panic ''permission denied'')
         (withCalls ex_readonly
            [Stat (Some 1), Stat (Some 1), CloseFile (Some 1),
             Rename ''log/ALog.log'' ''log/ALog.log.20220325202424.bak'',
             OpenFile ''log/ALog.log'' 420,
             Printf (''open new log file failed, err:permission denied'' @ [CHR 0x0A])])
   \<and> rotationFailed (Panic ''permission denied'')
         (withCalls ex_readonly
            [Stat (Some 1), Stat (Some 1), CloseFile (Some 1),
             Rename ''log/ALog.log'' ''log/ALog.log.20220325202424.bak'',
             OpenFile ''log/ALog.log'' 420,
             Printf (''open new log file failed, err:permission denied'' @ [CHR 0x0A])])
   \<and> writeIntoFile ex_daily ex_logMsg2 ex_readonly =
       Aborted (Panic ''permission denied'')
         (withCalls ex_readonly
            [Stat (Some 1), CloseFile (Some 1),
             Rename ''log/ALog.log'' ''log/ALog.log.20220325.bak'',
             OpenFile ''log/ALog.log'' 420,
             Printf (''open new log file failed, err:permission denied'' @ [CHR 0x0A])])"
proof -
  let ?w_size = "withCalls ex_readonly
            [Stat (Some 1), Stat (Some 1), CloseFile (Some 1),
             Rename ''log/ALog.log'' ''log/ALog.log.20220325202424.bak'',
             OpenFile ''log/ALog.log'' 420,
             Printf (''open new log file failed, err:permission denied'' @ [CHR 0x0A])]"
  let ?w_time = "withCalls ex_readonly
            [Stat (Some 1), CloseFile (Some 1),
             Rename ''log/ALog.log'' ''log/ALog.log.20220325.bak'',
             OpenFile ''log/ALog.log'' 420,
             Printf (''open new log file failed, err:permission denied'' @ [CHR 0x0A])]"
  have fo: "fileObj ex_sized = Some 1" "fileObj ex_fileLogger = Some 1"
    by (simp_all add: ex_sized_def ex_fileLogger_def)
  have dur: "duration ex_sized \<noteq> 0" "duration ex_daily \<noteq> 0"
    by (simp_all add: ex_sized_def ex_daily_def ex_fileLogger_def defaultDuration_def Duration_defs)
  have size: "splitMode ex_sized = SplitBaseOnSize" by (simp add: ex_sized_def)
  have daily: "splitMode ex_daily = SplitBaseOnTime" by (simp add: ex_daily_def)
  have none: "\<not> (splitMode ex_fileLogger = SplitBaseOnTime
                \<and> checkTime ex_fileLogger (parseLogTime ex_fileLogger ex_logMsg ex_nospace))"
    by (simp add: ex_fileLogger_def Split_defs)
  have ok: "statOpenSucceed ex_nospace"
    by (simp add: statOpenSucceed_def ex_nospace_def ex_started_def ex_world_def)
  have nostat: "fst (File_Stat (fileObj ex_sized) ex_nostat) = Inl ''bad file descriptor''"
    by (simp add: File_Stat_def fo ex_nostat_def)
  have reached: "sizeReached ex_sized ex_readonly"
    by (simp add: sizeReached_def File_Stat_def ex_sized_def ex_fileLogger_def ex_readonly_def
        ex_full_def defaultMaxFileSize_def)
  have due: "checkTime ex_daily (parseLogTime ex_daily ex_logMsg2 ex_readonly)"
    by (simp add: checkTime_def parseLogTime_def Time_Sub_def ex_daily_def ex_fileLogger_def
        ex_logMsg2_def ex_readonly_def ex_full_def ex_started_def ex_world_def ex_Parse_def
        T2_def defaultDuration_def defaultTimeFormat_def Duration_defs minDuration_def
        maxDuration_def)
  note c3 = C3_write_errors_discarded_rotation_errors_panic
  from c3 [of ex_fileLogger ex_logMsg ex_nospace] none
  have 1: "writeIntoFile ex_fileLogger ex_logMsg ex_nospace =
     Done ex_fileLogger (withCalls ex_nospace [Fprint (Some 1) (logInfo ex_logMsg)])"
    by (simp add: fo)
  from c3 [of ex_sized _ ex_nospace ex_sched] ok fo dur
  have 2: "\<exists>c f' evs. writeLogBackground_iter ex_sized ex_nospace ex_sched =
          Done (c, f') (withCalls ex_nospace evs) \<and> list_all (\<lambda>e. \<not> isPrintf e) evs"
    by simp
  from c3 [of ex_sized _ ex_nostat ex_sched "''bad file descriptor''"] size nostat
  have 3: "\<exists>c f' rest. writeLogBackground_iter ex_sized ex_nostat ex_sched =
          Done (c, f') (withCalls ex_nostat (Stat (Some 1)
             # Printf (''get file info failed, err:bad file descriptor'' @ [CHR 0x0A]) # rest))
          \<and> fileObj f' = Some 1 \<and> list_all (\<lambda>e. isWrite e \<or> isSleep e) rest"
    by (simp add: fo)
  from c3 [of ex_sized _ ex_readonly ex_sched "''permission denied''" _ _ ?w_size]
    size reached ex_splitFile_readonly_size
  have 4: "writeLogBackground_iter ex_sized ex_readonly ex_sched =
       Aborted (Panic ''permission denied'') ?w_size"
    by blast
  from c3 [of ex_sized _ ex_readonly ex_sched _ "Panic ''permission denied''" ?w_size] 4 dur
  have 5: "rotationFailed (Panic ''permission denied'') ?w_size" by blast
  from c3 [of ex_daily ex_logMsg2 ex_readonly _ "''permission denied''" _ _ _ ?w_time]
    daily due dur ex_splitFile_readonly_time
  have 6: "writeIntoFile ex_daily ex_logMsg2 ex_readonly =
       Aborted (Panic ''permission denied'') ?w_time"
    by blast
  from 1 ex_write_fails 2 3 4 5 6 show ?thesis by blast
qed

text \<open>
  The claim fails twice. When the size is reached and the log file cannot be reopened,
  the iteration panics instead of going on with the old handle. When a write fails (here
  every write, close and rename does), the iteration goes on but reports nothing: its
  trace holds the size check and the write, and no line on standard output.
\<close>

theorem C3_counterexample:
  "writeLogBackground_iter ex_sized ex_readonly ex_sched =
     Aborted (Panic ''permission denied'')
       (withCalls ex_readonly
          [Stat (Some 1), Stat (Some 1), CloseFile (Some 1),
           Rename ''log/ALog.log'' ''log/ALog.log.20220325202424.bak'',
           OpenFile ''log/ALog.log'' 420,
           Printf (''open new log file failed, err:permission denied'' @ [CHR 0x0A])])
   \<and> fst (fmt_Fprint (Some 1) (logInfo ex_logMsg) (withCalls ex_nospace [Stat (Some 1)])) =
       Some ''no space left on device''
   \<and> writeLogBackground_iter ex_sized ex_nospace ex_sched =
       Done (Continue, ex_sized\<lparr>logChan := \<lparr>buf = [], cap = 50000\<rparr>\<rparr>)
         (withCalls ex_nospace
            [Stat (Some 1),
             Fprint (Some 1)
               (''[2022-03-25 20:24:24] [DEBUG] [main:main.go:10] hello'' @ [CHR 0x0A])])"
proof -
  have "fst (fmt_Fprint (Some 1) (logInfo ex_logMsg) (withCalls ex_nospace [Stat (Some 1)])) =
       Some ''no space left on device''"
    by (simp add: fmt_Fprint_def call_def ex_nospace_def)
  with ex_iteration_readonly ex_iteration_nospace show ?thesis by blast
qed

text \<open>
  C4, as amended. In the mode that rotates by time, with a positive interval, a record
  that \<^verbatim>\<open>writeIntoFile\<close> writes is the last thing written to the current file, and its parsed
  time \<open>t\<close> (the zero time when the parse fails) is before the end of the period: \<open>t\<close> is
  less than the anchor plus the interval, for the anchor at the moment of the write. When
  the record rotates the file, it becomes the anchor itself. The anchor is not after \<open>t\<close>
  exactly when the anchor the worker held on receiving the record was not after \<open>t\<close>: a
  record stamped before the anchor is written all the same.
\<close>

theorem C4_written_record_is_before_period_end:
  assumes "splitMode f = SplitBaseOnTime" and "0 < duration f" and "duration f \<le> maxDuration"
    and "writeIntoFile f m w = Done f' w'"
  shows "parseLogTime f m w < startTime f' + duration f'
       \<and> last (trace w') = Fprint (fileObj f') (logInfo m)
       \<and> (startTime f' \<le> parseLogTime f m w \<longleftrightarrow> startTime f \<le> parseLogTime f m w)
       \<and> (checkTime f (parseLogTime f m w) \<longrightarrow> startTime f' = parseLogTime f m w)
       \<and> (\<not> checkTime f (parseLogTime f m w) \<longrightarrow> f' = f)"
proof (cases "checkTime f (parseLogTime f m w)")
  case True
  let ?t = "parseLogTime f m w"
  from True assms(2) have le: "startTime f \<le> ?t"
    by (auto simp: checkTime_def intro: Time_Sub_ge_pos)
  from assms(1,2,4) True obtain n w1 where
    f': "f' = f\<lparr>startTime := ?t, fileObj := Some n\<rparr>" and w': "w' = emit (Fprint (Some n) (logInfo m)) w1"
    by (auto simp: writeIntoFile_def splitFileByTime_def Let_def
          split: prod.splits sum.splits if_splits)
  show ?thesis using True le assms(2) by (simp add: f' w')
next
  case False
  then have eq: "writeIntoFile f m w = Done f (emit (Fprint (fileObj f) (logInfo m)) w)"
    by (simp add: writeIntoFile_no_rotation)
  have "Done f' w' = Done f (emit (Fprint (fileObj f) (logInfo m)) w)"
    by (simp only: assms(4) [symmetric] eq)
  then have f': "f' = f" and w': "w' = emit (Fprint (fileObj f) (logInfo m)) w"
    by (simp_all only: outcome.inject)
  from False assms(3) have "parseLogTime f m w < startTime f + duration f"
    by (auto simp: checkTime_def intro: Time_Sub_less)
  then show ?thesis using False by (simp add: f' w')
qed

theorem C4_witness:
  "writeIntoFile ex_daily ex_logMsg2 ex_started = Done ex_late ex_rotated
   \<and> parseLogTime ex_daily ex_logMsg2 ex_started = T2
   \<and> startTime ex_late = T2
   \<and> T2 < startTime ex_late + duration ex_late
   \<and> last (trace ex_rotated) = Fprint (fileObj ex_late) (logInfo ex_logMsg2)"
proof -
  have 1: "splitMode ex_daily = SplitBaseOnTime" by (simp add: ex_daily_def)
  have 2: "0 < duration ex_daily"
    by (simp add: ex_daily_def ex_fileLogger_def defaultDuration_def Duration_defs)
  have 3: "duration ex_daily \<le> maxDuration"
    by (simp add: ex_daily_def ex_fileLogger_def defaultDuration_def Duration_defs
        maxDuration_def)
  have t: "parseLogTime ex_daily ex_logMsg2 ex_started = T2"
    by (simp add: parseLogTime_def ex_daily_def ex_fileLogger_def ex_logMsg2_def ex_started_def
        ex_world_def ex_Parse_def)
  have s: "startTime ex_late = T2" by (simp add: ex_late_def)
  from C4_written_record_is_before_period_end [OF 1 2 3 ex_rotation_step]
  show ?thesis using t s ex_rotation_step by simp
qed

text \<open>
  The lower bound of the claim fails. A record stamped 2022-03-26 00:00:01 rotates the
  file and becomes the anchor; a record stamped 2022-03-25 23:59:59 that is received after
  it is written to the new file, one day and two seconds before its anchor.
\<close>

theorem C4_counterexample:
  "splitMode ex_daily = SplitBaseOnTime
   \<and> writeIntoFile ex_daily ex_logMsg2 ex_started = Done ex_late ex_rotated
   \<and> writeIntoFile ex_late ex_logMsg0 ex_rotated =
        Done ex_late (emit (Fprint (fileObj ex_late) (logInfo ex_logMsg0)) ex_rotated)
   \<and> parseLogTime ex_late ex_logMsg0 ex_rotated = T0
   \<and> startTime ex_late = T2
   \<and> \<not> (startTime ex_late \<le> T0 \<and> T0 < startTime ex_late + duration ex_late)"
proof -
  have t: "parseLogTime ex_late ex_logMsg0 ex_rotated = T0"
    by (simp add: parseLogTime_def ex_late_def ex_daily_def ex_fileLogger_def ex_logMsg0_def
        ex_rotated_def ex_started_def ex_world_def ex_Parse_def)
  have chk: "\<not> checkTime ex_late T0"
    by (simp add: checkTime_def Time_Sub_def ex_late_def ex_daily_def ex_fileLogger_def T2_def
        T0_def defaultDuration_def Duration_defs minDuration_def maxDuration_def)
  have w: "writeIntoFile ex_late ex_logMsg0 ex_rotated =
        Done ex_late (emit (Fprint (fileObj ex_late) (logInfo ex_logMsg0)) ex_rotated)"
    by (rule writeIntoFile_no_rotation) (simp add: t chk)
  have "\<not> startTime ex_late \<le> T0" by (simp add: ex_late_def T0_def T2_def)
  with t w ex_rotation_step show ?thesis by (simp add: ex_late_def ex_daily_def)
qed

text \<open>
  C5. With a queue of capacity \<open>N\<close> and no consumer running, \<open>N + k\<close> calls of
  \<^verbatim>\<open>fileLogger.log\<close> (\<open>k > 0\<close>) at enabled levels, starting from an empty queue, leave
  exactly the first \<open>N\<close> records in the queue and drop the other \<open>k\<close>; nothing else of
  the logger changes. Each call is a total function that returns the logger only: it
  cannot block and has no result or error for the caller.
\<close>

theorem C5_full_queue_drops:
  assumes "\<forall>c\<in>set calls. f_enable f (fst c)"
    and "buf (logChan f) = []"
    and "cap (logChan f) = N"
    and "length calls = N + k"
    and "0 < k"
  shows "buf (logChan (f_log_all f calls)) = map (sentMsg (f_timeFormat f)) (take N calls)
       \<and> length (buf (logChan (f_log_all f calls))) = N
       \<and> length calls - length (buf (logChan (f_log_all f calls))) = k
       \<and> f_log_all f calls = f\<lparr>logChan := (logChan f)\<lparr>buf := buf (logChan (f_log_all f calls))\<rparr>\<rparr>"
  using assms by (simp add: f_log_all_enabled take_map)

theorem C5_witness:
  "buf (logChan (f_log_all ex_small ex_calls)) =
     [\<lparr>m_level = DEBUG, m_msg = ''one'', m_funcName = ''main'', m_fileName = ''main.go'',
       m_timeStamp = ''2022-03-25 20:24:24'', m_line = 10\<rparr>,
      \<lparr>m_level = WARN, m_msg = ''two'', m_funcName = ''main'', m_fileName = ''main.go'',
       m_timeStamp = ''2022-03-25 20:24:24'', m_line = 10\<rparr>]
   \<and> length (buf (logChan (f_log_all ex_small ex_calls))) = 2
   \<and> length ex_calls - length (buf (logChan (f_log_all ex_small ex_calls))) = 1"
proof -
  have 1: "\<forall>c\<in>set ex_calls. f_enable ex_small (fst c)"
    by (simp add: ex_calls_def ex_small_def ex_fileLogger_def f_enable_def Level_defs)
  have 2: "buf (logChan ex_small) = []" by (simp add: ex_small_def make_chan_def)
  have 3: "cap (logChan ex_small) = 2" by (simp add: ex_small_def make_chan_def)
  have 4: "length ex_calls = 2 + 1" by (simp add: ex_calls_def)
  have 5: "map (sentMsg (f_timeFormat ex_small)) (take 2 ex_calls) =
     [\<lparr>m_level = DEBUG, m_msg = ''one'', m_funcName = ''main'', m_fileName = ''main.go'',
       m_timeStamp = ''2022-03-25 20:24:24'', m_line = 10\<rparr>,
      \<lparr>m_level = WARN, m_msg = ''two'', m_funcName = ''main'', m_fileName = ''main.go'',
       m_timeStamp = ''2022-03-25 20:24:24'', m_line = 10\<rparr>]"
    by (simp add: ex_calls_def sentMsg_def ex_ti_def ex_small_def ex_fileLogger_def
        ex_started_def ex_world_def ex_Format_def)
  show ?thesis using C5_full_queue_drops [OF 1 2 3 4] 4 5 by simp
qed

text \<open>
  C6. In the mode that rotates by size, one iteration of the worker's loop starts with the
  size check: one \<^verbatim>\<open>Stat\<close> on the current file, whose answer is compared with
  \<open>maxFileSize\<close> (\<open>sizeReached\<close>). When the size is reached, the calls of a rotation follow
  at once (\<open>rotationCalls\<close>: the \<^verbatim>\<open>Stat\<close> by which \<^verbatim>\<open>splitFile\<close> learns the name of the
  file, \<^verbatim>\<open>Close\<close>, \<^verbatim>\<open>Rename\<close> to the backup name, \<^verbatim>\<open>OpenFile\<close>), and the worker then
  holds the descriptor \<^verbatim>\<open>OpenFile\<close> returned. When it is not reached, nothing follows but
  the report of a \<^verbatim>\<open>Stat\<close> that failed, and the worker keeps its descriptor. Everything
  the iteration does afterwards is the writes of the records it takes from the head of
  the queue, in order, to the descriptor it now holds (one record, or those the inner
  loop entered on the close signal receives), or else the idle sleep: no size check and
  no rotation stand between the writes. The iteration panics exactly when the size was
  reached and the rotation failed, at its \<^verbatim>\<open>Stat\<close> or at its \<^verbatim>\<open>OpenFile\<close>, with that error.
\<close>

theorem C6_size_checked_once_before_the_writes:
  assumes "splitMode f = SplitBaseOnSize"
  shows "case writeLogBackground_iter f w sch of
           Done (c, f') w' \<Rightarrow>
             (\<exists>pre n rest.
                w' = withCalls w (Stat (fileObj f) # pre @ rest)
                \<and> (if sizeReached f w
                     then (\<exists>name sz h.
                             fst (File_Stat (fileObj f) (withCalls w [Stat (fileObj f)])) =
                               Inr (name, sz)
                           \<and> fst (os_OpenFile (path_Join [f_filePath f, name]) perm_0644
                                   (withCalls w (Stat (fileObj f) #
                                      butlast (rotationCalls f (fileObj f) SplitBaseOnSize w name))))
                               = Inr h
                           \<and> pre = rotationCalls f (fileObj f) SplitBaseOnSize w name
                           \<and> fileObj f' = Some h)
                     else pre = statReport f w \<and> fileObj f' = fileObj f)
                \<and> buf (logChan f') = drop n (buf (logChan f))
                \<and> (rest = recordWrites (fileObj f') (take n (buf (logChan f)))
                     \<or> rest = [Sleep (Millisecond * 500)] \<and> buf (logChan f) = []))
         | Aborted a w' \<Rightarrow>
             sizeReached f w \<and> rotationFailed a w'
             \<and> (case fst (File_Stat (fileObj f) (withCalls w [Stat (fileObj f)])) of
                  Inl e \<Rightarrow>
                    a = Panic e
                    \<and> w' = withCalls w [Stat (fileObj f), Stat (fileObj f),
                             Printf (''get file info failed, err:'' @ e @ [CHR 0x0A])]
                | Inr (name, sz) \<Rightarrow>
                    (\<exists>err. fst (os_OpenFile (path_Join [f_filePath f, name]) perm_0644
                                  (withCalls w (Stat (fileObj f) #
                                     butlast (rotationCalls f (fileObj f) SplitBaseOnSize w name))))
                              = Inl err
                       \<and> a = Panic err
                       \<and> w' = withCalls w (Stat (fileObj f) #
                                rotationCalls f (fileObj f) SplitBaseOnSize w name @
                                [Printf (''open new log file failed, err:'' @ err @ [CHR 0x0A])])))"
proof -
  note rb = rotateBySize_size_mode [OF assms, of w]
  have nt: "\<And>g. splitMode g = splitMode f \<Longrightarrow> splitMode g \<noteq> SplitBaseOnTime"
    using assms by (simp add: Split_defs)
  have op: "\<And>name. fst (os_OpenFile (path_Join [f_filePath f, name]) perm_0644
                (withCalls w (Stat (fileObj f) #
                   butlast (rotationCalls f (fileObj f) SplitBaseOnSize w name)))) =
              os_open w (trace w @ Stat (fileObj f) #
                       butlast (rotationCalls f (fileObj f) SplitBaseOnSize w name))
                     (path_Join [f_filePath f, name])"
    by (simp add: os_OpenFile_withCalls)
  show ?thesis
  proof (cases "sizeReached f w")
    case False
    define w1 where "w1 = withCalls w (Stat (fileObj f) # statReport f w)"
    from rb False have r: "rotateBySize f w = Done f w1" by (simp add: w1_def)
    from selectStep_not_by_time_calls [OF nt [OF refl], of w1 sch] obtain c f1 n rest where
      s: "selectStep f w1 sch = Done (c, f1) (withCalls w1 rest)"
      and fo: "fileObj f1 = fileObj f"
      and q: "buf (logChan f1) = drop n (buf (logChan f))"
      and rest: "rest = recordWrites (fileObj f) (take n (buf (logChan f)))
                \<or> rest = [Sleep (Millisecond * 500)] \<and> buf (logChan f) = []"
      by blast
    have it: "writeLogBackground_iter f w sch =
                Done (c, f1) (withCalls w (Stat (fileObj f) # statReport f w @ rest))"
      by (simp add: iter_eq r s) (simp add: w1_def)
    have "\<exists>pre' n' rest'.
            withCalls w (Stat (fileObj f) # statReport f w @ rest) =
              withCalls w (Stat (fileObj f) # pre' @ rest')
            \<and> (pre' = statReport f w \<and> fileObj f1 = fileObj f)
            \<and> buf (logChan f1) = drop n' (buf (logChan f))
            \<and> (rest' = recordWrites (fileObj f1) (take n' (buf (logChan f)))
                 \<or> rest' = [Sleep (Millisecond * 500)] \<and> buf (logChan f) = [])"
      by (rule exI [of _ "statReport f w"], rule exI [of _ n], rule exI [of _ rest])
         (use fo q rest in simp)
    then show ?thesis by (simp only: it outcome.case prod.case False if_False)
  next
    case True
    define w1 where "w1 = withCalls w [Stat (fileObj f)]"
    show ?thesis
    proof (cases "fst (File_Stat (fileObj f) w1)")
      case (Inl e)
      from rb True Inl have r: "rotateBySize f w = Aborted (Panic e)
               (withCalls w [Stat (fileObj f), Stat (fileObj f),
                  Printf (''get file info failed, err:'' @ e @ [CHR 0x0A])])"
        by (simp add: w1_def)
      from rotateBySize_Aborted [OF r] have "rotationFailed (Panic e)
               (withCalls w [Stat (fileObj f), Stat (fileObj f),
                  Printf (''get file info failed, err:'' @ e @ [CHR 0x0A])])"
        by simp
      then show ?thesis
        using True Inl by (simp add: iter_eq r w1_def [symmetric])
    next
      case (Inr p)
      obtain name sz where p: "p = (name, sz)" by (cases p)
      note st = Inr [unfolded p]
      let ?rc = "rotationCalls f (fileObj f) SplitBaseOnSize w name"
      let ?o = "os_open w (trace w @ Stat (fileObj f) # butlast ?rc)
                     (path_Join [f_filePath f, name])"
      show ?thesis
      proof (cases ?o)
        case (Inl err)
        from rb True st Inl have r: "rotateBySize f w = Aborted (Panic err)
                    (withCalls w (Stat (fileObj f) # ?rc @
                       [Printf (''open new log file failed, err:'' @ err @ [CHR 0x0A])]))"
          by (simp add: w1_def)
        from rotateBySize_Aborted [OF r] have "rotationFailed (Panic err)
                    (withCalls w (Stat (fileObj f) # ?rc @
                       [Printf (''open new log file failed, err:'' @ err @ [CHR 0x0A])]))"
          by simp
        then show ?thesis
          using True st Inl by (simp add: iter_eq r w1_def [symmetric] op)
      next
        case (Inr h)
        define f0 where "f0 = f\<lparr>fileObj := Some h\<rparr>"
        define w2 where "w2 = withCalls w (Stat (fileObj f) # ?rc)"
        from rb True st Inr have r: "rotateBySize f w = Done f0 w2"
          by (simp add: w1_def f0_def w2_def)
        have m0: "splitMode f0 = splitMode f" by (simp add: f0_def)
        from selectStep_not_by_time_calls [OF nt [OF m0], of w2 sch] obtain c f1 n rest where
          s: "selectStep f0 w2 sch = Done (c, f1) (withCalls w2 rest)"
          and fo: "fileObj f1 = fileObj f0"
          and q: "buf (logChan f1) = drop n (buf (logChan f0))"
          and rest: "rest = recordWrites (fileObj f0) (take n (buf (logChan f0)))
                    \<or> rest = [Sleep (Millisecond * 500)] \<and> buf (logChan f0) = []"
          by blast
        have it: "writeLogBackground_iter f w sch =
                    Done (c, f1) (withCalls w (Stat (fileObj f) # ?rc @ rest))"
          by (simp add: iter_eq r s) (simp add: w2_def)
        have fo1: "fileObj f1 = Some h" using fo by (simp add: f0_def)
        have q1: "buf (logChan f1) = drop n (buf (logChan f))" using q by (simp add: f0_def)
        have rest1: "rest = recordWrites (fileObj f1) (take n (buf (logChan f)))
                    \<or> rest = [Sleep (Millisecond * 500)] \<and> buf (logChan f) = []"
          using rest fo1 by (simp add: f0_def)
        have inner: "\<exists>name' sz' h'.
                 fst (File_Stat (fileObj f) (withCalls w [Stat (fileObj f)])) = Inr (name', sz')
               \<and> fst (os_OpenFile (path_Join [f_filePath f, name']) perm_0644
                       (withCalls w (Stat (fileObj f) #
                          butlast (rotationCalls f (fileObj f) SplitBaseOnSize w name'))))
                   = Inr h'
               \<and> ?rc = rotationCalls f (fileObj f) SplitBaseOnSize w name'
               \<and> fileObj f1 = Some h'"
          by (rule exI [of _ name], rule exI [of _ sz], rule exI [of _ h])
             (use st Inr fo1 in \<open>simp add: op w1_def\<close>)
        have "\<exists>pre' n' rest'.
            withCalls w (Stat (fileObj f) # ?rc @ rest) =
              withCalls w (Stat (fileObj f) # pre' @ rest')
            \<and> (\<exists>name' sz' h'.
                 fst (File_Stat (fileObj f) (withCalls w [Stat (fileObj f)])) = Inr (name', sz')
               \<and> fst (os_OpenFile (path_Join [f_filePath f, name']) perm_0644
                       (withCalls w (Stat (fileObj f) #
                          butlast (rotationCalls f (fileObj f) SplitBaseOnSize w name'))))
                   = Inr h'
               \<and> pre' = rotationCalls f (fileObj f) SplitBaseOnSize w name'
               \<and> fileObj f1 = Some h')
            \<and> buf (logChan f1) = drop n' (buf (logChan f))
            \<and> (rest' = recordWrites (fileObj f1) (take n' (buf (logChan f)))
                 \<or> rest' = [Sleep (Millisecond * 500)] \<and> buf (logChan f) = [])"
          by (rule exI [of _ ?rc], rule exI [of _ n], rule exI [of _ rest])
             (use inner q1 rest1 in blast)
        then show ?thesis by (simp only: it outcome.case prod.case True if_True)
      qed
    qed
  qed
qed


theorem C6_witness:
  "splitMode ex_sized = SplitBaseOnSize
   \<and> sizeReached ex_sized ex_full
   \<and> writeLogBackground_iter ex_sized ex_full ex_sched =
       Done (Continue, ex_sized\<lparr>fileObj := Some 7, logChan := \<lparr>buf = [], cap = 50000\<rparr>\<rparr>)
         (withCalls ex_full
            [Stat (Some 1), Stat (Some 1), CloseFile (Some 1),
             Rename ''log/ALog.log'' ''log/ALog.log.20220325202424.bak'',
             OpenFile ''log/ALog.log'' 420,
             Fprint (Some 7)
               (''[2022-03-25 20:24:24] [DEBUG] [main:main.go:10] hello'' @ [CHR 0x0A])])
   \<and> (\<exists>pre n rest.
         withCalls ex_full
            [Stat (Some 1), Stat (Some 1), CloseFile (Some 1),
             Rename ''log/ALog.log'' ''log/ALog.log.20220325202424.bak'',
             OpenFile ''log/ALog.log'' 420,
             Fprint (Some 7)
               (''[2022-03-25 20:24:24] [DEBUG] [main:main.go:10] hello'' @ [CHR 0x0A])]
           = withCalls ex_full (Stat (Some 1) # pre @ rest)
         \<and> (\<exists>name sz h.
               fst (File_Stat (Some 1) (withCalls ex_full [Stat (Some 1)])) = Inr (name, sz)
             \<and> fst (os_OpenFile (path_Join [''./log/'', name]) perm_0644
                     (withCalls ex_full (Stat (Some 1) #
                        butlast (rotationCalls ex_sized (Some 1) SplitBaseOnSize ex_full name))))
                 = Inr h
             \<and> pre = rotationCalls ex_sized (Some 1) SplitBaseOnSize ex_full name
             \<and> Some 7 = Some h)
         \<and> [] = drop n [ex_logMsg]
         \<and> (rest = recordWrites (Some 7) (take n [ex_logMsg])
              \<or> rest = [Sleep (Millisecond * 500)] \<and> [ex_logMsg] = []))
   \<and> \<not> sizeReached ex_sized ex_nostat
   \<and> writeLogBackground_iter ex_sized ex_nostat ex_sched =
       Done (Continue, ex_sized\<lparr>logChan := \<lparr>buf = [], cap = 50000\<rparr>\<rparr>)
         (withCalls ex_nostat
            [Stat (Some 1), Printf (''get file info failed, err:bad file descriptor'' @ [CHR 0x0A]),
             Fprint (Some 1)
               (''[2022-03-25 20:24:24] [DEBUG] [main:main.go:10] hello'' @ [CHR 0x0A])])
   \<and> (\<exists>pre n rest.
         withCalls ex_nostat
            [Stat (Some 1), Printf (''get file info failed, err:bad file descriptor'' @ [CHR 0x0A]),
             Fprint (Some 1)
               (''[2022-03-25 20:24:24] [DEBUG] [main:main.go:10] hello'' @ [CHR 0x0A])]
           = withCalls ex_nostat (Stat (Some 1) # pre @ rest)
         \<and> pre = statReport ex_sized ex_nostat
         \<and> [] = drop n [ex_logMsg]
         \<and> (rest = recordWrites (Some 1) (take n [ex_logMsg])
              \<or> rest = [Sleep (Millisecond * 500)] \<and> [ex_logMsg] = []))
   \<and> sizeReached ex_sized ex_readonly
   \<and> writeLogBackground_iter ex_sized ex_readonly ex_sched =
       Aborted (Panic ''permission denied'')
         (withCalls ex_readonly
            [Stat (Some 1), Stat (Some 1), CloseFile (Some 1),
             Rename ''log/ALog.log'' ''log/ALog.log.20220325202424.bak'',
             OpenFile ''log/ALog.log'' 420,
             Printf (''open new log file failed, err:permission denied'' @ [CHR 0x0A])])
   \<and> rotationFailed (Panic ''permission denied'')
         (withCalls ex_readonly
            [Stat (Some 1), Stat (Some 1), CloseFile (Some 1),
             Rename ''log/ALog.log'' ''log/ALog.log.20220325202424.bak'',
             OpenFile ''log/ALog.log'' 420,
             Printf (''open new log file failed, err:permission denied'' @ [CHR 0x0A])])"
proof -
  have mode: "splitMode ex_sized = SplitBaseOnSize" by (simp add: ex_sized_def)
  have reached: "sizeReached ex_sized ex_full"
    by (simp add: sizeReached_def File_Stat_def ex_sized_def ex_fileLogger_def ex_full_def
        defaultMaxFileSize_def)
  have reached': "sizeReached ex_sized ex_readonly"
    by (simp add: sizeReached_def File_Stat_def ex_sized_def ex_fileLogger_def ex_full_def
        ex_readonly_def defaultMaxFileSize_def)
  have fo: "fileObj ex_sized = Some 1" "f_filePath ex_sized = ''./log/''"
    "buf (logChan ex_sized) = [ex_logMsg]"
    by (simp_all add: ex_sized_def ex_fileLogger_def defaultFilePath_def)
  have fo7: "fileObj (ex_sized\<lparr>fileObj := Some 7, logChan := \<lparr>buf = [], cap = 50000\<rparr>\<rparr>) = Some 7"
    "buf (logChan (ex_sized\<lparr>fileObj := Some 7, logChan := \<lparr>buf = [], cap = 50000\<rparr>\<rparr>)) = []"
    by simp_all
  note full = C6_size_checked_once_before_the_writes [OF mode, of ex_full ex_sched,
      unfolded ex_iteration_full outcome.case prod.case fo fo7]
  have below: "\<not> sizeReached ex_sized ex_nostat"
    by (simp add: sizeReached_def File_Stat_def ex_sized_def ex_fileLogger_def ex_nostat_def)
  have fo1: "fileObj (ex_sized\<lparr>logChan := \<lparr>buf = [], cap = 50000\<rparr>\<rparr>) = Some 1"
    "buf (logChan (ex_sized\<lparr>logChan := \<lparr>buf = [], cap = 50000\<rparr>\<rparr>)) = []"
    by (simp_all add: fo)
  note ns = C6_size_checked_once_before_the_writes [OF mode, of ex_nostat ex_sched,
      unfolded ex_iteration_nostat outcome.case prod.case fo fo1]
  note ro = C6_size_checked_once_before_the_writes [OF mode, of ex_readonly ex_sched,
      unfolded ex_iteration_readonly outcome.case prod.case fo]
  from below ns have "\<exists>pre n rest.
         withCalls ex_nostat
            [Stat (Some 1), Printf (''get file info failed, err:bad file descriptor'' @ [CHR 0x0A]),
             Fprint (Some 1)
               (''[2022-03-25 20:24:24] [DEBUG] [main:main.go:10] hello'' @ [CHR 0x0A])]
           = withCalls ex_nostat (Stat (Some 1) # pre @ rest)
         \<and> (pre = statReport ex_sized ex_nostat \<and> Some (1 :: nat) = Some 1)
         \<and> [] = drop n [ex_logMsg]
         \<and> (rest = recordWrites (Some 1) (take n [ex_logMsg])
              \<or> rest = [Sleep (Millisecond * 500)] \<and> [ex_logMsg] = [])"
    by (simp only: if_False)
  then have c: "\<exists>pre n rest.
         withCalls ex_nostat
            [Stat (Some 1), Printf (''get file info failed, err:bad file descriptor'' @ [CHR 0x0A]),
             Fprint (Some 1)
               (''[2022-03-25 20:24:24] [DEBUG] [main:main.go:10] hello'' @ [CHR 0x0A])]
           = withCalls ex_nostat (Stat (Some 1) # pre @ rest)
         \<and> pre = statReport ex_sized ex_nostat
         \<and> [] = drop n [ex_logMsg]
         \<and> (rest = recordWrites (Some 1) (take n [ex_logMsg])
              \<or> rest = [Sleep (Millisecond * 500)] \<and> [ex_logMsg] = [])"
    by blast
  from full reached have a: "\<exists>pre n rest.
         withCalls ex_full
            [Stat (Some 1), Stat (Some 1), CloseFile (Some 1),
             Rename ''log/ALog.log'' ''log/ALog.log.20220325202424.bak'',
             OpenFile ''log/ALog.log'' 420,
             Fprint (Some 7)
               (''[2022-03-25 20:24:24] [DEBUG] [main:main.go:10] hello'' @ [CHR 0x0A])]
           = withCalls ex_full (Stat (Some 1) # pre @ rest)
         \<and> (\<exists>name sz h.
               fst (File_Stat (Some 1) (withCalls ex_full [Stat (Some 1)])) = Inr (name, sz)
             \<and> fst (os_OpenFile (path_Join [''./log/'', name]) perm_0644
                     (withCalls ex_full (Stat (Some 1) #
                        butlast (rotationCalls ex_sized (Some 1) SplitBaseOnSize ex_full name))))
                 = Inr h
             \<and> pre = rotationCalls ex_sized (Some 1) SplitBaseOnSize ex_full name
             \<and> Some 7 = Some h)
         \<and> [] = drop n [ex_logMsg]
         \<and> (rest = recordWrites (Some 7) (take n [ex_logMsg])
              \<or> rest = [Sleep (Millisecond * 500)] \<and> [ex_logMsg] = [])"
    by (simp only: if_True)
  from ro have b: "rotationFailed (Panic ''permission denied'')
         (withCalls ex_readonly
            [Stat (Some 1), Stat (Some 1), CloseFile (Some 1),
             Rename ''log/ALog.log'' ''log/ALog.log.20220325202424.bak'',
             OpenFile ''log/ALog.log'' 420,
             Printf (''open new log file failed, err:permission denied'' @ [CHR 0x0A])])"
    by (rule conjunct1 [OF conjunct2])
  from mode reached ex_iteration_full a below ex_iteration_nostat c
    reached' ex_iteration_readonly b
  show ?thesis by (intro conjI)
qed




text \<open>
  C8. When every active sink has minimum level \<open>L2\<close> and a log method of a level
  \<open>L1 < L2\<close> is called, the call changes nothing: no event is added to the trace (nothing
  is printed) and the logger, with the queue of its file sink, is unchanged.
\<close>

theorem C8_below_minimum_level_no_output:
  assumes "methodLevel m < L2"
    and "\<forall>c. CLogger l = Some c \<longrightarrow> c_level c = L2"
    and "\<forall>f. FLogger l = Some f \<longrightarrow> f_level f = L2"
  shows "Log_call m l msg ti w = (l, w)"
proof -
  have c: "\<And>c. CLogger l = Some c \<Longrightarrow> c_log c (methodLevel m) msg ti w = w"
    using assms(1,2) by (simp add: c_log_disabled c_enable_def not_le)
  have f: "\<And>f. FLogger l = Some f \<Longrightarrow> f_log f (methodLevel m) msg ti w = f"
    using assms(1,3) by (simp add: f_log_disabled f_enable_def not_le)
  show ?thesis
    using c f
    by (cases m)
       (auto simp: Log_Debug_def Log_Info_def Log_Warn_def Log_Error_def Log_Fatal_def
          f_Debug_def f_Info_def f_Warn_def f_Error_def f_Fatal_def
          c_Debug_def c_Info_def c_Warn_def c_Error_def c_Fatal_def Let_def
          split: option.splits)
qed

theorem C8_witness:
  "methodLevel MDebug < INFO
   \<and> Log_call MDebug ex_Log_info ''hello'' ex_ti ex_started = (ex_Log_info, ex_started)"
proof -
  have 1: "methodLevel MDebug < INFO" by (simp add: DEBUG_def INFO_def)
  have 2: "\<forall>c. CLogger ex_Log_info = Some c \<longrightarrow> c_level c = INFO"
    by (simp add: ex_Log_info_def)
  have 3: "\<forall>f. FLogger ex_Log_info = Some f \<longrightarrow> f_level f = INFO"
    by (simp add: ex_Log_info_def)
  show ?thesis using C8_below_minimum_level_no_output [OF 1 2 3] 1 by simp
qed

text \<open>
  C9. \<^verbatim>\<open>SetLevel\<close> on a string that is none of debug, info, warn, error, fatal in any
  casing (its lower case is none of the five) panics, and by then has stored \<open>UNKNOWN\<close> in every active sink. \<open>UNKNOWN\<close> is 0,
  below \<open>DEBUG\<close>, and a sink at \<open>UNKNOWN\<close> enables every level. Whenever a sink had another
  level before, the logger the failed call leaves differs from the one it was given.
\<close>

theorem C9_SetLevel_invalid_mutates_then_panics:
  assumes "strings_ToLower w str \<notin> {''debug'', ''info'', ''warn'', ''error'', ''fatal''}"
  shows "SetLevel l str w =
           (Some (Panic err_invalid_level),
            l\<lparr>CLogger := map_option (\<lambda>c. c\<lparr>c_level := UNKNOWN\<rparr>) (CLogger l),
              FLogger := map_option (\<lambda>f. f\<lparr>f_level := UNKNOWN\<rparr>) (FLogger l)\<rparr>)
       \<and> UNKNOWN = 0 \<and> UNKNOWN < DEBUG
       \<and> c_enable (c\<lparr>c_level := UNKNOWN\<rparr>) lv \<and> f_enable (f\<lparr>f_level := UNKNOWN\<rparr>) lv
       \<and> ((\<exists>c. CLogger l = Some c \<and> c_level c \<noteq> UNKNOWN)
            \<or> (\<exists>f. FLogger l = Some f \<and> f_level f \<noteq> UNKNOWN)
          \<longrightarrow> snd (SetLevel l str w) \<noteq> l)"
proof -
  have eq: "SetLevel l str w =
           (Some (Panic err_invalid_level),
            l\<lparr>CLogger := map_option (\<lambda>c. c\<lparr>c_level := UNKNOWN\<rparr>) (CLogger l),
              FLogger := map_option (\<lambda>f. f\<lparr>f_level := UNKNOWN\<rparr>) (FLogger l)\<rparr>)"
    by (simp add: SetLevel_def s2L_invalid [OF assms] Let_def split: option.splits)
  have en: "c_enable (c\<lparr>c_level := UNKNOWN\<rparr>) lv \<and> f_enable (f\<lparr>f_level := UNKNOWN\<rparr>) lv"
    by (simp add: c_enable_def f_enable_def UNKNOWN_def)
  have ne: "(\<exists>c. CLogger l = Some c \<and> c_level c \<noteq> UNKNOWN)
            \<or> (\<exists>f. FLogger l = Some f \<and> f_level f \<noteq> UNKNOWN)
          \<longrightarrow> snd (SetLevel l str w) \<noteq> l"
  proof
    assume h: "(\<exists>c. CLogger l = Some c \<and> c_level c \<noteq> UNKNOWN)
            \<or> (\<exists>f. FLogger l = Some f \<and> f_level f \<noteq> UNKNOWN)"
    show "snd (SetLevel l str w) \<noteq> l"
    proof
      assume "snd (SetLevel l str w) = l"
      then have same: "l\<lparr>CLogger := map_option (\<lambda>c. c\<lparr>c_level := UNKNOWN\<rparr>) (CLogger l),
              FLogger := map_option (\<lambda>f. f\<lparr>f_level := UNKNOWN\<rparr>) (FLogger l)\<rparr> = l"
        by (simp add: eq)
      have c: "map_option (\<lambda>c. c\<lparr>c_level := UNKNOWN\<rparr>) (CLogger l) = CLogger l"
        using arg_cong [OF same, of CLogger] by simp
      have f: "map_option (\<lambda>f. f\<lparr>f_level := UNKNOWN\<rparr>) (FLogger l) = FLogger l"
        using arg_cong [OF same, of FLogger] by simp
      from h show False
      proof
        assume "\<exists>c. CLogger l = Some c \<and> c_level c \<noteq> UNKNOWN"
        then obtain c0 where c0: "CLogger l = Some c0" "c_level c0 \<noteq> UNKNOWN" by blast
        from c c0(1) have "c0\<lparr>c_level := UNKNOWN\<rparr> = c0" by simp
        then have "c_level (c0\<lparr>c_level := UNKNOWN\<rparr>) = c_level c0" by simp
        with c0(2) show False by simp
      next
        assume "\<exists>f. FLogger l = Some f \<and> f_level f \<noteq> UNKNOWN"
        then obtain f0 where f0: "FLogger l = Some f0" "f_level f0 \<noteq> UNKNOWN" by blast
        from f f0(1) have "f0\<lparr>f_level := UNKNOWN\<rparr> = f0" by simp
        then have "f_level (f0\<lparr>f_level := UNKNOWN\<rparr>) = f_level f0" by simp
        with f0(2) show False by simp
      qed
    qed
  qed
  show ?thesis using eq en ne by (simp add: UNKNOWN_def DEBUG_def)
qed

theorem C9_witness:
  "SetLevel ex_Log ''Trace'' ex_world =
     (Some (Panic err_invalid_level),
      \<lparr>CLogger = Some \<lparr>c_level = 0, c_timeFormat = defaultTimeFormat\<rparr>,
       FLogger = Some (ex_fileLogger\<lparr>f_level := 0\<rparr>), isClose = False\<rparr>)
   \<and> snd (SetLevel ex_Log ''Trace'' ex_world) \<noteq> ex_Log"
proof -
  have 1: "strings_ToLower ex_world ''Trace''
             \<notin> {''debug'', ''info'', ''warn'', ''error'', ''fatal''}"
    by (simp add: ex_world_def ex_ToLower_def lower_char_def)
  have 2: "(\<exists>c. CLogger ex_Log = Some c \<and> c_level c \<noteq> UNKNOWN)
            \<or> (\<exists>f. FLogger ex_Log = Some f \<and> f_level f \<noteq> UNKNOWN)"
    by (simp add: ex_Log_def newConsoleLogger_def defaultLevel_def Level_defs)
  note inst = C9_SetLevel_invalid_mutates_then_panics [OF 1, of ex_Log]
  from inst have a: "SetLevel ex_Log ''Trace'' ex_world =
           (Some (Panic err_invalid_level),
            ex_Log\<lparr>CLogger := map_option (\<lambda>c. c\<lparr>c_level := UNKNOWN\<rparr>) (CLogger ex_Log),
              FLogger := map_option (\<lambda>f. f\<lparr>f_level := UNKNOWN\<rparr>) (FLogger ex_Log)\<rparr>)"
    by blast
  from inst 2 have b: "snd (SetLevel ex_Log ''Trace'' ex_world) \<noteq> ex_Log" by blast
  have "SetLevel ex_Log ''Trace'' ex_world =
     (Some (Panic err_invalid_level),
      \<lparr>CLogger = Some \<lparr>c_level = 0, c_timeFormat = defaultTimeFormat\<rparr>,
       FLogger = Some (ex_fileLogger\<lparr>f_level := 0\<rparr>), isClose = False\<rparr>)"
    unfolding a by (simp add: ex_Log_def newConsoleLogger_def UNKNOWN_def)
  with b show ?thesis by blast
qed



end
